theory Spec2Isabelle
  imports Complex_Main "HOL-Library.Char_ord" "HOL-Library.List_Lexorder"
    "HOL-Library.Product_Lexorder"
begin

section \<open>Data model of \<^verbatim>\<open>src/dashboard.py\<close>\<close>

text \<open>
  The pipeline of \<^verbatim>\<open>load_data\<close> works on a pandas DataFrame read from a CSV file.
  A cell of such a frame is missing (\<^verbatim>\<open>NaN\<close>, \<^verbatim>\<open>pd.NA\<close>: every value for which
  \<^verbatim>\<open>pd.isna\<close> holds is the one value \<open>NA\<close>), a number, or a string.
  The numbers are the values of a type \<open>'n\<close>: the machine numbers of pandas (64-bit
  integers, doubles other than NaN, the infinities among them).  Their order is the
  order of \<open>'n\<close>; their addition is the machine's, with its rounding, overflow and
  wrap-around, and enters the model as the parameters \<open>rs\<close> and \<open>gs\<close> below.
  Strings are lists of characters with a code point below 256; \<^verbatim>\<open>str.lower\<close> and
  \<^verbatim>\<open>str.strip\<close> are those of Python on these characters.  Boolean cells are not
  modelled.

  A DataFrame is the list of its columns in column order, each a name with its values
  in row order.  Each pandas call of the pipeline is a function of this model that
  follows the behaviour of the call with the arguments the code passes.
\<close>

datatype 'n cell = NA | Num 'n | Str string

type_synonym 'n column = "string \<times> 'n cell list"
type_synonym 'n dataframe = "'n column list"

text \<open>The result of Python's \<^verbatim>\<open>float(s)\<close> when it does not raise, and the result of
  a machine sum: a NaN or a number.\<close>

datatype 'n pyfloat = Nan | Fin 'n

fun float_cell :: "'n pyfloat \<Rightarrow> 'n cell" where
  "float_cell Nan = NA"
| "float_cell (Fin r) = Num r"

text \<open>\<open>ReadError\<close> stands for any exception that \<^verbatim>\<open>pd.read_csv\<close> raises, by its
  name.\<close>

datatype error =
    FileNotFoundError string
  | ReadError string
  | IndexError
  | TypeError

subsection \<open>Python string operations\<close>

definition isspace :: "char \<Rightarrow> bool" where
  "isspace c \<longleftrightarrow> c \<in> set [CHR 0x09, CHR 0x0A, CHR 0x0B, CHR 0x0C, CHR 0x0D,
                        CHR 0x1C, CHR 0x1D, CHR 0x1E, CHR 0x1F, CHR 0x20,
                        CHR 0x85, CHR 0xA0]"

definition strip :: "string \<Rightarrow> string" where
  "strip s = rev (dropWhile isspace (rev (dropWhile isspace s)))"

definition upper_letters :: string where
  "upper_letters =
     ''ABCDEFGHIJKLMNOPQRSTUVWXYZ'' @
     [CHR 0xC0, CHR 0xC1, CHR 0xC2, CHR 0xC3, CHR 0xC4, CHR 0xC5, CHR 0xC6, CHR 0xC7,
      CHR 0xC8, CHR 0xC9, CHR 0xCA, CHR 0xCB, CHR 0xCC, CHR 0xCD, CHR 0xCE, CHR 0xCF,
      CHR 0xD0, CHR 0xD1, CHR 0xD2, CHR 0xD3, CHR 0xD4, CHR 0xD5, CHR 0xD6, CHR 0xD8,
      CHR 0xD9, CHR 0xDA, CHR 0xDB, CHR 0xDC, CHR 0xDD, CHR 0xDE]"

definition lower_letters :: string where
  "lower_letters =
     ''abcdefghijklmnopqrstuvwxyz'' @
     [CHR 0xE0, CHR 0xE1, CHR 0xE2, CHR 0xE3, CHR 0xE4, CHR 0xE5, CHR 0xE6, CHR 0xE7,
      CHR 0xE8, CHR 0xE9, CHR 0xEA, CHR 0xEB, CHR 0xEC, CHR 0xED, CHR 0xEE, CHR 0xEF,
      CHR 0xF0, CHR 0xF1, CHR 0xF2, CHR 0xF3, CHR 0xF4, CHR 0xF5, CHR 0xF6, CHR 0xF8,
      CHR 0xF9, CHR 0xFA, CHR 0xFB, CHR 0xFC, CHR 0xFD, CHR 0xFE]"

definition lower_char :: "char \<Rightarrow> char" where
  "lower_char c = (case map_of (zip upper_letters lower_letters) c of Some d \<Rightarrow> d | None \<Rightarrow> c)"

definition lower :: "string \<Rightarrow> string" where
  "lower s = map lower_char s"

definition startswith :: "string \<Rightarrow> string \<Rightarrow> bool" where
  "startswith s p \<longleftrightarrow> take (length p) s = p"

text \<open>\<^verbatim>\<open>sub in s\<close> for strings.\<close>

fun contains :: "string \<Rightarrow> string \<Rightarrow> bool" where
  "contains [] sub = (sub = [])"
| "contains (c # cs) sub = (startswith (c # cs) sub \<or> contains cs sub)"

text \<open>\<^verbatim>\<open>s.split(",")\<close>: the pieces between the commas, at least one piece.\<close>

fun split_comma :: "string \<Rightarrow> string list" where
  "split_comma [] = [[]]"
| "split_comma (c # cs) =
     (if c = CHR '','' then [] # split_comma cs
      else (case split_comma cs of
              [] \<Rightarrow> [[c]]
            | p # ps \<Rightarrow> (c # p) # ps))"

subsection \<open>Coordinate extraction\<close>

text \<open>
  \<^verbatim>\<open>_extract_lat_lon\<close> (lines 35--45).  Python's \<^verbatim>\<open>float\<close> is the parameter
  \<open>pf\<close>: \<open>None\<close> where it raises \<^verbatim>\<open>ValueError\<close>.  The \<^verbatim>\<open>try\<close> covers both
  conversions, so a failure of either gives the pair of missing values.
\<close>

fun extract_lat_lon :: "(string \<Rightarrow> 'n pyfloat option) \<Rightarrow> 'n cell \<Rightarrow> 'n cell \<times> 'n cell" where
  "extract_lat_lon pf NA = (NA, NA)"
| "extract_lat_lon pf (Str s) =
     (if CHR '','' \<in> set s then
        (let parts = split_comma s in
         if length parts = 2 then
           (case pf (strip (parts ! 0)) of
              None \<Rightarrow> (NA, NA)
            | Some a \<Rightarrow>
                (case pf (strip (parts ! 1)) of
                   None \<Rightarrow> (NA, NA)
                 | Some b \<Rightarrow> (float_cell a, float_cell b)))
         else (NA, NA))
      else (NA, NA))"
| "extract_lat_lon pf (Num r) = (NA, NA)"

text \<open>
  A parser for plain decimal literals (an optional sign, digits, an optional fraction),
  the fragment of the grammar of \<^verbatim>\<open>float\<close> that the examples use.  It instantiates
  \<open>pf\<close> where a statement is evaluated on concrete strings.
\<close>

definition digit_val :: "char \<Rightarrow> nat option" where
  "digit_val c = map_of (zip ''0123456789'' [0, 1, 2, 3, 4, 5, 6, 7, 8, 9]) c"

fun digits_val :: "nat \<Rightarrow> string \<Rightarrow> nat option" where
  "digits_val acc [] = Some acc"
| "digits_val acc (c # cs) =
     (case digit_val c of
        None \<Rightarrow> None
      | Some d \<Rightarrow> digits_val (10 * acc + d) cs)"

definition unsigned_decimal :: "string \<Rightarrow> rat option" where
  "unsigned_decimal s =
     (let ip = takeWhile (\<lambda>c. c \<noteq> CHR ''.'') s;
          fp = drop 1 (dropWhile (\<lambda>c. c \<noteq> CHR ''.'') s)
      in if ip = [] \<and> fp = [] then None
         else (case (digits_val 0 ip, digits_val 0 fp) of
                 (Some i, Some f) \<Rightarrow> Some (of_nat i + of_nat f / 10 ^ length fp)
               | _ \<Rightarrow> None))"

definition decimal_float :: "string \<Rightarrow> rat pyfloat option" where
  "decimal_float s =
     (case s of
        [] \<Rightarrow> None
      | c # cs \<Rightarrow>
          if c = CHR ''-'' then map_option (\<lambda>r. Fin (- r)) (unsigned_decimal cs)
          else if c = CHR ''+'' then map_option Fin (unsigned_decimal cs)
          else map_option Fin (unsigned_decimal s))"

subsection \<open>DataFrame primitives\<close>

definition columns :: "'n dataframe \<Rightarrow> string list" where
  "columns df = map fst df"

text \<open>\<^verbatim>\<open>len(df)\<close>: every column of a frame has the same length.\<close>

definition nrows :: "'n dataframe \<Rightarrow> nat" where
  "nrows df = (case df of [] \<Rightarrow> 0 | (n, vs) # rest \<Rightarrow> length vs)"

text \<open>\<^verbatim>\<open>df[c]\<close> for a name \<open>c\<close> that is the name of one column of \<^verbatim>\<open>df\<close>.\<close>

definition get_col :: "'n dataframe \<Rightarrow> string \<Rightarrow> 'n cell list" where
  "get_col df c = (case map_of df c of Some vs \<Rightarrow> vs | None \<Rightarrow> [])"

text \<open>
  \<^verbatim>\<open>df[names]\<close> for a list of names of \<^verbatim>\<open>df.columns\<close>: for each name of the list,
  every column of that name.
\<close>

definition select_columns :: "'n dataframe \<Rightarrow> string list \<Rightarrow> 'n cell list list" where
  "select_columns df names = concat (map (\<lambda>c. map snd (filter (\<lambda>p. fst p = c) df)) names)"

text \<open>
  \<^verbatim>\<open>d[k] = v\<close> on a DataFrame and on a \<^verbatim>\<open>dict\<close>: an existing key keeps its place,
  a new key goes to the end.
\<close>

fun setitem :: "'k \<Rightarrow> 'v \<Rightarrow> ('k \<times> 'v) list \<Rightarrow> ('k \<times> 'v) list" where
  "setitem k v [] = [(k, v)]"
| "setitem k v (p # ps) = (if fst p = k then (k, v) # ps else p # setitem k v ps)"

text \<open>\<^verbatim>\<open>df.drop(columns=[c])\<close> and \<^verbatim>\<open>df.rename(columns={old: new})\<close>.\<close>

definition drop_col :: "string \<Rightarrow> 'n dataframe \<Rightarrow> 'n dataframe" where
  "drop_col c df = filter (\<lambda>p. fst p \<noteq> c) df"

definition rename_col :: "string \<Rightarrow> string \<Rightarrow> 'n dataframe \<Rightarrow> 'n dataframe" where
  "rename_col old new df = map (\<lambda>p. (if fst p = old then new else fst p, snd p)) df"

text \<open>
  \<^verbatim>\<open>pd.to_numeric(..., errors="coerce")\<close> on one value.  The parser of pandas for
  strings is the parameter \<open>tn\<close>: \<open>None\<close> where the string is not a number.
\<close>

fun to_numeric :: "(string \<Rightarrow> 'n pyfloat option) \<Rightarrow> 'n cell \<Rightarrow> 'n cell" where
  "to_numeric tn NA = NA"
| "to_numeric tn (Num r) = Num r"
| "to_numeric tn (Str s) = (case tn s of None \<Rightarrow> NA | Some f \<Rightarrow> float_cell f)"

definition numbers :: "'n cell list \<Rightarrow> 'n list" where
  "numbers vs = concat (map (\<lambda>v. case v of Num r \<Rightarrow> [r] | _ \<Rightarrow> []) vs)"

text \<open>The summand of a value in a sum that counts a missing value as zero.\<close>

fun number_or_zero :: "'n::zero cell \<Rightarrow> 'n" where
  "number_or_zero (Num r) = r"
| "number_or_zero v = 0"

text \<open>
  \<^verbatim>\<open>.sum(axis=1, min_count=1)\<close> on one row of numeric values.  The row with zero for
  each missing value is summed by the machine: the parameter \<open>rs\<close> is that sum, which is
  a number or, for infinities of both signs, a NaN.  A row with no number gives missing.
\<close>

definition sum_min_count1 :: "('n::zero list \<Rightarrow> 'n pyfloat) \<Rightarrow> 'n cell list \<Rightarrow> 'n cell" where
  "sum_min_count1 rs vs =
     (if numbers vs = [] then NA else float_cell (rs (map number_or_zero vs)))"

definition row_sums ::
  "('n::zero list \<Rightarrow> 'n pyfloat) \<Rightarrow> nat \<Rightarrow> 'n cell list list \<Rightarrow> 'n cell list" where
  "row_sums rs n cols = map (\<lambda>i. sum_min_count1 rs (map (\<lambda>col. col ! i) cols)) [0..<n]"

text \<open>The sum of numbers that add without rounding, overflow or wrap-around.\<close>

definition exact_sum :: "rat list \<Rightarrow> rat pyfloat" where
  "exact_sum xs = Fin (sum_list xs)"

subsection \<open>Column standardization\<close>

text \<open>\<^verbatim>\<open>_standardize_columns\<close> (lines 14--62), one definition per step.\<close>

definition strip_names :: "'n dataframe \<Rightarrow> 'n dataframe" where
  "strip_names df = map (\<lambda>p. (strip (fst p), snd p)) df"

definition unnamed :: "string \<Rightarrow> bool" where
  "unnamed c \<longleftrightarrow> c = [] \<or> startswith (lower c) ''unnamed''"

definition drop_unnamed :: "'n dataframe \<Rightarrow> 'n dataframe" where
  "drop_unnamed df =
     (case df of
        [] \<Rightarrow> df
      | p # rest \<Rightarrow> if unnamed (fst p) then drop_col (fst p) df else df)"

definition normalize_name :: "string \<Rightarrow> string \<Rightarrow> 'n dataframe \<Rightarrow> 'n dataframe" where
  "normalize_name old new df =
     (if old \<in> set (columns df) \<and> new \<notin> set (columns df) then rename_col old new df
      else df)"

definition derive_lat_lon :: "(string \<Rightarrow> 'n pyfloat option) \<Rightarrow> 'n dataframe \<Rightarrow> 'n dataframe" where
  "derive_lat_lon pf df =
     (if ''Coordinates'' \<in> set (columns df)
         \<and> (''latitude'' \<notin> set (columns df) \<or> ''longitude'' \<notin> set (columns df))
      then
        (let latlon = map (extract_lat_lon pf) (get_col df ''Coordinates'');
             df1 = (if ''latitude'' \<notin> set (columns df)
                    then setitem ''latitude'' (map fst latlon) df else df);
             df2 = (if ''longitude'' \<notin> set (columns df1)
                    then setitem ''longitude'' (map snd latlon) df1 else df1)
         in df2)
      else df)"

definition is_capacity :: "string \<Rightarrow> bool" where
  "is_capacity c \<longleftrightarrow> contains (lower c) ''capacity''"

definition add_total ::
  "(string \<Rightarrow> 'n pyfloat option) \<Rightarrow> ('n::zero list \<Rightarrow> 'n pyfloat) \<Rightarrow> 'n dataframe
     \<Rightarrow> 'n dataframe" where
  "add_total tn rs df =
     (let cap_cols = filter is_capacity (columns df) in
      if cap_cols \<noteq> [] then
        setitem ''Total capacity (ttpa)''
          (row_sums rs (nrows df) (map (map (to_numeric tn)) (select_columns df cap_cols))) df
      else df)"

definition trimmed :: "'n dataframe \<Rightarrow> 'n dataframe" where
  "trimmed df = drop_unnamed (strip_names df)"

definition renamed :: "'n dataframe \<Rightarrow> 'n dataframe" where
  "renamed df =
     normalize_name ''Longitude'' ''longitude''
       (normalize_name ''Latitude'' ''latitude'' (trimmed df))"

definition before_total :: "(string \<Rightarrow> 'n pyfloat option) \<Rightarrow> 'n dataframe \<Rightarrow> 'n dataframe" where
  "before_total pf df = derive_lat_lon pf (renamed df)"

definition standardize_columns ::
  "(string \<Rightarrow> 'n pyfloat option) \<Rightarrow> (string \<Rightarrow> 'n pyfloat option)
     \<Rightarrow> ('n::zero list \<Rightarrow> 'n pyfloat) \<Rightarrow> 'n dataframe \<Rightarrow> 'n dataframe" where
  "standardize_columns pf tn rs df = add_total tn rs (before_total pf df)"

text \<open>
  The dtype of the derived columns.  \<^verbatim>\<open>_extract_lat_lon\<close> returns \<^verbatim>\<open>pd.NA\<close> on the
  paths below, and a derived \<^verbatim>\<open>latitude\<close> or \<^verbatim>\<open>longitude\<close> column that holds a
  \<^verbatim>\<open>pd.NA\<close> is a column of Python objects, not of doubles; the values alone do not tell
  the two apart, so the names of the object columns are kept beside the frame.
\<close>

fun returns_pd_na :: "(string \<Rightarrow> 'n pyfloat option) \<Rightarrow> 'n cell \<Rightarrow> bool" where
  "returns_pd_na pf NA = True"
| "returns_pd_na pf (Str s) =
     (if CHR '','' \<in> set s then
        (let parts = split_comma s in
         if length parts = 2 then
           pf (strip (parts ! 0)) = None \<or> pf (strip (parts ! 1)) = None
         else True)
      else True)"
| "returns_pd_na pf (Num r) = True"

definition object_columns :: "(string \<Rightarrow> 'n pyfloat option) \<Rightarrow> 'n dataframe \<Rightarrow> string list" where
  "object_columns pf df =
     (let d = renamed df in
      if ''Coordinates'' \<in> set (columns d)
         \<and> list_ex (returns_pd_na pf) (get_col d ''Coordinates'')
      then filter (\<lambda>c. c \<notin> set (columns d)) [''latitude'', ''longitude'']
      else [])"

subsection \<open>Duplicate aggregation\<close>

text \<open>The grouping key of \<^verbatim>\<open>_aggregate_duplicates\<close> (lines 65--79);
  \<^verbatim>\<open>df.columns[0]\<close> raises \<^verbatim>\<open>IndexError\<close> on a frame without columns.\<close>

definition grouping_key :: "'n dataframe \<Rightarrow> error + string list" where
  "grouping_key df =
     (if ''Plant ID'' \<in> set (columns df) then Inr [''Plant ID'']
      else
        (let ks = filter (\<lambda>c. c \<in> set (columns df))
                    [''Plant name (English)'', ''Owner'', ''latitude'', ''longitude'',
                     ''Country/Area'']
         in if ks \<noteq> [] then Inr ks
            else (case columns df of
                    [] \<Rightarrow> Inl IndexError
                  | c # rest \<Rightarrow> Inr [c])))"

datatype aggfun = First | Sum | Max

text \<open>The dictionary \<^verbatim>\<open>agg\<close> (lines 81--111), in insertion order.\<close>

definition numeric_sum :: "'n dataframe \<Rightarrow> string list" where
  "numeric_sum df =
     (if ''Total capacity (ttpa)'' \<in> set (columns df) then [''Total capacity (ttpa)''] else [])
     @ filter (\<lambda>c. is_capacity c \<and> c \<noteq> ''Total capacity (ttpa)'') (columns df)"

definition first_fields :: "string list" where
  "first_fields =
     [''Plant name (English)'', ''Owner'', ''Location address'', ''Country/Area'', ''Region'',
      ''Coordinates'', ''Announced date'', ''Start date'', ''latitude'', ''longitude'']"

definition agg_spec :: "'n dataframe \<Rightarrow> string list \<Rightarrow> (string \<times> aggfun) list" where
  "agg_spec df key =
     (let agg0 = map (\<lambda>c. (c, First)) (filter (\<lambda>c. c \<notin> set key) (columns df));
          agg1 = fold (\<lambda>c agg. setitem c Sum agg) (numeric_sum df) agg0;
          agg2 = (if ''Workforce size'' \<in> set (columns df)
                  then setitem ''Workforce size'' Max agg1 else agg1)
      in fold (\<lambda>c agg. if c \<in> set (map fst agg) then setitem c First agg else agg)
           first_fields agg2)"

text \<open>
  \<^verbatim>\<open>df.groupby(key, dropna=False, as_index=False).agg(agg)\<close>.  The groups are the
  distinct tuples of key values, a missing value being a key value like any other
  (\<^verbatim>\<open>dropna=False\<close>).  With \<^verbatim>\<open>sort=True\<close>, the default, pandas sorts the distinct
  values of each key column and orders the groups by their places in these sorted
  levels, the first key column first.

  A column of doubles, of integers or of strings is sorted ascending, a missing value
  last: \<open>cell_ord\<close>.  An object column of numbers with a missing value is handed to
  numpy's \<^verbatim>\<open>argsort\<close> with the missing value as NaN; every comparison with NaN is
  false, and the order that results is the parameter \<open>os\<close>, applied to the distinct
  values in the order of their first appearance.
\<close>

fun cell_ord :: "'n::linorder cell \<Rightarrow> nat \<times> 'n list \<times> string" where
  "cell_ord (Num r) = (0, [r], [])"
| "cell_ord (Str s) = (1, [], s)"
| "cell_ord NA = (2, [], [])"

definition uniques :: "'a list \<Rightarrow> 'a list" where
  "uniques xs = rev (remdups (rev xs))"

definition position :: "'a list \<Rightarrow> 'a \<Rightarrow> nat" where
  "position xs v = length (takeWhile (\<lambda>x. x \<noteq> v) xs)"

definition level_rank ::
  "('n::linorder cell list \<Rightarrow> 'n cell list) \<Rightarrow> string list \<Rightarrow> 'n dataframe \<Rightarrow> string
     \<Rightarrow> 'n cell \<Rightarrow> nat \<times> 'n list \<times> string" where
  "level_rank os obj df c v =
     (if c \<in> set obj then (position (os (uniques (get_col df c))) v, [], [])
      else cell_ord v)"

definition row_key :: "'n dataframe \<Rightarrow> string list \<Rightarrow> nat \<Rightarrow> 'n cell list" where
  "row_key df key i = map (\<lambda>c. get_col df c ! i) key"

definition key_rank ::
  "('n::linorder cell list \<Rightarrow> 'n cell list) \<Rightarrow> string list \<Rightarrow> 'n dataframe \<Rightarrow> string list
     \<Rightarrow> 'n cell list \<Rightarrow> (nat \<times> 'n list \<times> string) list" where
  "key_rank os obj df key k = map (\<lambda>cv. level_rank os obj df (fst cv) (snd cv)) (zip key k)"

definition group_keys ::
  "('n::linorder cell list \<Rightarrow> 'n cell list) \<Rightarrow> string list \<Rightarrow> 'n dataframe \<Rightarrow> string list
     \<Rightarrow> 'n cell list list" where
  "group_keys os obj df key =
     sort_key (key_rank os obj df key) (uniques (map (row_key df key) [0..<nrows df]))"

text \<open>
  numpy sorts an array of at most 16 elements by insertion: each element moves to the
  left past the elements it is less than.  With \<^verbatim>\<open><\<close> false on NaN this is
  \<open>insertion_argsort\<close>, which instantiates \<open>os\<close> on the small examples below.
\<close>

fun nan_less :: "'n::linorder cell \<Rightarrow> 'n cell \<Rightarrow> bool" where
  "nan_less (Num x) (Num y) = (x < y)"
| "nan_less u v = False"

text \<open>The sorted part is held in reverse, its last element first.\<close>

fun insert_left :: "'n::linorder cell \<Rightarrow> 'n cell list \<Rightarrow> 'n cell list" where
  "insert_left v [] = [v]"
| "insert_left v (u # us) = (if nan_less v u then u # insert_left v us else v # u # us)"

definition insertion_argsort :: "'n::linorder cell list \<Rightarrow> 'n cell list" where
  "insertion_argsort xs = rev (fold insert_left xs [])"

text \<open>The rows of one group, in input order, and their values in one column.\<close>

definition group_rows :: "'n dataframe \<Rightarrow> string list \<Rightarrow> 'n cell list \<Rightarrow> nat list" where
  "group_rows df key k = filter (\<lambda>i. row_key df key i = k) [0..<nrows df]"

definition group_values ::
  "'n dataframe \<Rightarrow> string list \<Rightarrow> string \<Rightarrow> 'n cell list \<Rightarrow> 'n cell list" where
  "group_values df key c k = map (\<lambda>i. get_col df c ! i) (group_rows df key k)"

definition nonmissing :: "'n cell list \<Rightarrow> 'n cell list" where
  "nonmissing vs = filter (\<lambda>v. v \<noteq> NA) vs"

definition strings :: "'n cell list \<Rightarrow> string list" where
  "strings vs = concat (map (\<lambda>v. case v of Str s \<Rightarrow> [s] | _ \<Rightarrow> []) vs)"

text \<open>\<^verbatim>\<open>"first"\<close>: the first value of the group that is not missing.\<close>

definition agg_first :: "'n cell list \<Rightarrow> 'n cell" where
  "agg_first vs = (case nonmissing vs of [] \<Rightarrow> NA | v # rest \<Rightarrow> v)"

text \<open>
  \<^verbatim>\<open>"sum"\<close>, with the default \<^verbatim>\<open>min_count=0\<close> of a grouped sum, on the values
  \<open>vs\<close> of one group of the column \<open>col\<close>: missing values are skipped.  The numbers
  that are left are summed by the machine, the parameter \<open>gs\<close>; strings are
  concatenated; a number and a string cannot be added.  A group with no value gives 0,
  and the empty string in a column of strings.
\<close>

definition agg_sum ::
  "('n::zero list \<Rightarrow> 'n pyfloat) \<Rightarrow> 'n cell list \<Rightarrow> 'n cell list \<Rightarrow> error + 'n cell" where
  "agg_sum gs col vs =
     (let xs = nonmissing vs in
      if xs = [] then Inr (if strings col = [] then Num 0 else Str [])
      else if length (numbers xs) = length xs then Inr (float_cell (gs (numbers xs)))
      else if length (strings xs) = length xs then Inr (Str (concat (strings xs)))
      else Inl TypeError)"

text \<open>
  \<^verbatim>\<open>"max"\<close>: missing values are skipped, and a group without a value gives missing.
  Numbers compare with numbers and strings with strings.
\<close>

definition agg_max :: "'n::linorder cell list \<Rightarrow> error + 'n cell" where
  "agg_max vs =
     (let xs = nonmissing vs in
      if xs = [] then Inr NA
      else if length (numbers xs) = length xs
        then Inr (Num (fold max (tl (numbers xs)) (hd (numbers xs))))
      else if length (strings xs) = length xs
        then Inr (Str (fold max (tl (strings xs)) (hd (strings xs))))
      else Inl TypeError)"

fun apply_agg ::
  "('n::{linorder,zero} list \<Rightarrow> 'n pyfloat) \<Rightarrow> aggfun \<Rightarrow> 'n cell list \<Rightarrow> 'n cell list
     \<Rightarrow> error + 'n cell" where
  "apply_agg gs First col vs = Inr (agg_first vs)"
| "apply_agg gs Sum col vs = agg_sum gs col vs"
| "apply_agg gs Max col vs = agg_max vs"

text \<open>The first exception raised ends the computation.\<close>

fun collect :: "(error + 'a) list \<Rightarrow> error + 'a list" where
  "collect [] = Inr []"
| "collect (x # xs) =
     (case x of
        Inl e \<Rightarrow> Inl e
      | Inr v \<Rightarrow> (case collect xs of Inl e \<Rightarrow> Inl e | Inr vs \<Rightarrow> Inr (v # vs)))"

definition agg_column ::
  "('n::{linorder,zero} list \<Rightarrow> 'n pyfloat) \<Rightarrow> ('n cell list \<Rightarrow> 'n cell list) \<Rightarrow> string list
     \<Rightarrow> 'n dataframe \<Rightarrow> string list \<Rightarrow> string \<times> aggfun \<Rightarrow> error + 'n column" where
  "agg_column gs os obj df key cf =
     (case collect (map (\<lambda>k. apply_agg gs (snd cf) (get_col df (fst cf))
                               (group_values df key (fst cf) k))
                        (group_keys os obj df key)) of
        Inl e \<Rightarrow> Inl e
      | Inr vs \<Rightarrow> Inr (fst cf, vs))"

text \<open>
  The result has the aggregated columns in the order of \<^verbatim>\<open>agg\<close>; with
  \<^verbatim>\<open>as_index=False\<close> the key columns are put in front of them, except a key column
  whose name is already a column of the result.
\<close>

definition key_columns ::
  "('n::linorder cell list \<Rightarrow> 'n cell list) \<Rightarrow> string list \<Rightarrow> 'n dataframe \<Rightarrow> string list
     \<Rightarrow> string list \<Rightarrow> 'n dataframe" where
  "key_columns os obj df key present =
     concat (map (\<lambda>j. if key ! j \<in> set present then []
                       else [(key ! j, map (\<lambda>k. k ! j) (group_keys os obj df key))])
                 [0..<length key])"

definition groupby_agg ::
  "('n::{linorder,zero} list \<Rightarrow> 'n pyfloat) \<Rightarrow> ('n cell list \<Rightarrow> 'n cell list) \<Rightarrow> string list
     \<Rightarrow> 'n dataframe \<Rightarrow> string list \<Rightarrow> (string \<times> aggfun) list \<Rightarrow> error + 'n dataframe" where
  "groupby_agg gs os obj df key agg =
     (case collect (map (agg_column gs os obj df key) agg) of
        Inl e \<Rightarrow> Inl e
      | Inr cols \<Rightarrow> Inr (key_columns os obj df key (map fst agg) @ cols))"

text \<open>\<^verbatim>\<open>_aggregate_duplicates\<close> (lines 64--113) on a frame whose object columns of
  numbers with a missing value are the columns \<open>obj\<close>.\<close>

definition aggregate_duplicates ::
  "('n::{linorder,zero} list \<Rightarrow> 'n pyfloat) \<Rightarrow> ('n cell list \<Rightarrow> 'n cell list) \<Rightarrow> string list
     \<Rightarrow> 'n dataframe \<Rightarrow> error + 'n dataframe" where
  "aggregate_duplicates gs os obj df =
     (case grouping_key df of
        Inl e \<Rightarrow> Inl e
      | Inr key \<Rightarrow> groupby_agg gs os obj df key (agg_spec df key))"

subsection \<open>The pipeline\<close>

text \<open>
  \<^verbatim>\<open>load_data\<close> (lines 115--124).  The file system is the argument \<open>file\<close>:
  \<open>None\<close> when \<^verbatim>\<open>plants_processed.csv\<close> does not exist; otherwise what
  \<^verbatim>\<open>pd.read_csv\<close> does with the file, which is to raise an exception, \<open>Inl\<close> with its
  name, or to return a frame, \<open>Inr\<close>.
\<close>

definition missing_file_message :: string where
  "missing_file_message =
     ''plants_processed.csv not found. Please place the file next to the app.''"

definition load_data ::
  "(string \<Rightarrow> 'n pyfloat option) \<Rightarrow> (string \<Rightarrow> 'n pyfloat option)
     \<Rightarrow> ('n::{linorder,zero} list \<Rightarrow> 'n pyfloat) \<Rightarrow> ('n list \<Rightarrow> 'n pyfloat)
     \<Rightarrow> ('n cell list \<Rightarrow> 'n cell list) \<Rightarrow> (string + 'n dataframe) option
     \<Rightarrow> error + 'n dataframe" where
  "load_data pf tn rs gs os file =
     (case file of
        None \<Rightarrow> Inl (FileNotFoundError missing_file_message)
      | Some (Inl name) \<Rightarrow> Inl (ReadError name)
      | Some (Inr df) \<Rightarrow>
          aggregate_duplicates gs os (object_columns pf df) (standardize_columns pf tn rs df))"

text \<open>A frame is rectangular: its columns have one length.\<close>

definition rectangular :: "'n dataframe \<Rightarrow> bool" where
  "rectangular df \<longleftrightarrow> (\<forall>p \<in> set df. length (snd p) = nrows df)"


text \<open>The columns tried as the composite key when there is no \<^verbatim>\<open>Plant ID\<close>.\<close>

definition fallback_fields :: "string list" where
  "fallback_fields =
     [''Plant name (English)'', ''Owner'', ''latitude'', ''longitude'', ''Country/Area'']"

text \<open>
  Doubles with the two infinities, for the examples in which a sum is not a number:
  the sum of a list that holds both infinities is a NaN.
\<close>

datatype extended = MInf | Finite rat | PInf

instantiation extended :: zero
begin

definition zero_extended :: extended where
  "zero_extended = Finite 0"

instance ..

end

definition extended_sum :: "extended list \<Rightarrow> extended pyfloat" where
  "extended_sum xs =
     (if PInf \<in> set xs \<and> MInf \<in> set xs then Nan
      else if PInf \<in> set xs then Fin PInf
      else if MInf \<in> set xs then Fin MInf
      else Fin (Finite (sum_list (map (\<lambda>x. case x of Finite r \<Rightarrow> r | _ \<Rightarrow> 0) xs))))"

subsection \<open>Example frames\<close>

text \<open>Small frames on which the statements below are evaluated.\<close>

definition capacity_frame :: "rat dataframe" where
  "capacity_frame =
     [(''Unnamed: 0'', [Num 0, Num 1, Num 2]),
      ('' Capacity A'', [Num 10, NA, NA]),
      (''capacity b '', [Str ''unknown'', Str ''5'', NA])]"

definition coordinates_frame :: "rat dataframe" where
  "coordinates_frame =
     [(''Plant ID'', [Str ''P1'', Str ''P2'', Str ''P3'']),
      (''Coordinates '', [Str ''41.09, 20.02'', Str ''bad,value,x'', NA])]"

definition lowercase_frame :: "rat dataframe" where
  "lowercase_frame =
     [(''latitude'', [Num 1, NA]),
      (''longitude'', [Str ''east'', Num 2]),
      (''Coordinates'', [Str ''5, 6'', Str ''7, 8''])]"

definition uppercase_frame :: "rat dataframe" where
  "uppercase_frame =
     [(''Unnamed: 0'', [Num 0, Num 1]),
      (''Latitude'', [Num 1, NA]),
      (''Longitude'', [Str ''east'', Num 2])]"

definition duplicates_frame :: "rat dataframe" where
  "duplicates_frame =
     [(''Plant ID'', [Str ''P2'', Str ''P1'', NA, Str ''P2'', NA]),
      (''Owner'', [NA, Str ''A'', Str ''C'', Str ''B'', NA]),
      (''Capacity'', [Num 100, NA, NA, Num 50, NA]),
      (''Total capacity (ttpa)'', [Num 100, NA, NA, Num 50, NA])]"

definition duplicates_output :: "rat dataframe" where
  "duplicates_output =
     [(''Plant ID'', [Str ''P1'', Str ''P2'', NA]),
      (''Owner'', [Str ''A'', Str ''B'', Str ''C'']),
      (''Capacity'', [Num 0, Num 150, Num 0]),
      (''Total capacity (ttpa)'', [Num 0, Num 150, Num 0])]"



definition sparse_frame :: "rat dataframe" where
  "sparse_frame =
     [(''Plant ID'', [Str ''P1'', Str ''P1'', Str ''P2'']),
      (''Capacity'', [NA, NA, Num 5])]"

section \<open>Properties\<close>

subsection \<open>Splitting at commas\<close>

lemma split_comma_nonempty: "split_comma s \<noteq> []"
  by (induction s) (auto split: list.splits)

lemma split_comma_no_comma: "CHR '','' \<notin> set s \<Longrightarrow> split_comma s = [s]"
  by (induction s) auto

lemma split_comma_append:
  "CHR '','' \<notin> set a \<Longrightarrow> split_comma (a @ CHR '','' # b) = a # split_comma b"
  by (induction a) auto

lemma length_split_comma: "length (split_comma s) = Suc (count_list s (CHR '',''))"
  by (induction s) (auto split: list.splits simp: split_comma_nonempty)

subsection \<open>Coordinate extraction\<close>

text \<open>
  Claim C7.  \<^verbatim>\<open>_extract_lat_lon\<close> maps a missing value, and a value that is not a
  string, to the pair of missing values.  A string with exactly one comma, that is
  \<open>a\<close>, a comma, \<open>b\<close> with no comma in \<open>a\<close> and \<open>b\<close>, gives the pair of floats
  parsed from the trimmed \<open>a\<close> and \<open>b\<close> when both parse, and the pair of missing
  values when either does not.  A string with no comma or with more than one gives the pair
  of missing values.  So \<^verbatim>\<open>"41.09, 20.02"\<close> gives (41.09, 20.02), and
  \<^verbatim>\<open>"bad,value,x"\<close> and \<^verbatim>\<open>"nocomma"\<close> give two missing values.
\<close>

theorem extract_lat_lon_spec:
  "extract_lat_lon pf NA = (NA, NA)
   \<and> extract_lat_lon pf (Num r) = (NA, NA)
   \<and> (CHR '','' \<notin> set a \<and> CHR '','' \<notin> set b \<longrightarrow>
        extract_lat_lon pf (Str (a @ CHR '','' # b)) =
          (case pf (strip a) of
             None \<Rightarrow> (NA, NA)
           | Some x \<Rightarrow> (case pf (strip b) of
                          None \<Rightarrow> (NA, NA)
                        | Some y \<Rightarrow> (float_cell x, float_cell y))))
   \<and> (count_list s (CHR '','') \<noteq> 1 \<longrightarrow> extract_lat_lon pf (Str s) = (NA, NA))
   \<and> extract_lat_lon decimal_float (Str ''41.09, 20.02'') = (Num 41.09, Num 20.02)
   \<and> extract_lat_lon pf (Str ''bad,value,x'') = (NA, NA)
   \<and> extract_lat_lon pf (Str ''nocomma'') = (NA, NA)"
proof -
  have one: "extract_lat_lon pf (Str (a @ CHR '','' # b)) =
          (case pf (strip a) of
             None \<Rightarrow> (NA, NA)
           | Some x \<Rightarrow> (case pf (strip b) of
                          None \<Rightarrow> (NA, NA)
                        | Some y \<Rightarrow> (float_cell x, float_cell y)))"
    if "CHR '','' \<notin> set a" "CHR '','' \<notin> set b"
    using that
    by (simp add: split_comma_append split_comma_no_comma nth_Cons' split: option.splits)
  have other: "extract_lat_lon pf (Str s) = (NA, NA)" if "count_list s (CHR '','') \<noteq> 1"
    using that by (simp add: length_split_comma)
  have e1: "extract_lat_lon decimal_float (Str ''41.09, 20.02'') = (Num 41.09, Num 20.02)"
    by code_simp
  have e2: "extract_lat_lon pf (Str ''bad,value,x'') = (NA, NA)"
    by simp
  have e3: "extract_lat_lon pf (Str ''nocomma'') = (NA, NA)"
    by simp
  show ?thesis using one other e1 e2 e3 by simp
qed

theorem extract_lat_lon_spec_witness:
  "CHR '','' \<notin> set ''10.5'' \<and> CHR '','' \<notin> set '' -3 ''
   \<and> extract_lat_lon decimal_float (Str ''10.5, -3 '') = (Num 10.5, Num (-3))
   \<and> count_list ''1,2,3'' (CHR '','') \<noteq> 1
   \<and> extract_lat_lon decimal_float (Str ''1,2,3'') = (NA, NA)"
  using extract_lat_lon_spec [of decimal_float 0 "''10.5''" "'' -3 ''" "''1,2,3''"]
  by (simp add: strip_def isspace_def decimal_float_def unsigned_decimal_def digit_val_def)

subsection \<open>Frames and their columns\<close>

lemma map_of_setitem: "map_of (setitem k v al) = (map_of al)(k \<mapsto> v)"
  by (induction al) (auto simp: fun_eq_iff)

lemma keys_setitem:
  "map fst (setitem k v al) = (if k \<in> set (map fst al) then map fst al else map fst al @ [k])"
  by (induction al) auto

lemma set_setitem: "set (setitem k v al) \<subseteq> insert (k, v) (set al)"
  by (induction al) auto

lemma get_col_setitem: "get_col (setitem k v df) c = (if c = k then v else get_col df c)"
  by (simp add: get_col_def map_of_setitem)

lemma map_of_drop_col: "map_of (drop_col n df) c = (if c = n then None else map_of df c)"
  unfolding drop_col_def by (induction df) auto

lemma map_of_rename_col:
  "c \<noteq> old \<Longrightarrow> c \<noteq> new \<Longrightarrow> map_of (rename_col old new df) c = map_of df c"
  unfolding rename_col_def by (induction df) auto

lemma columns_rename_col:
  "columns (rename_col old new df) = map (\<lambda>n. if n = old then new else n) (columns df)"
  by (simp add: rename_col_def columns_def comp_def)

lemma not_capacity_names:
  "\<not> is_capacity ''Latitude''" "\<not> is_capacity ''latitude''"
  "\<not> is_capacity ''Longitude''" "\<not> is_capacity ''longitude''"
  by (simp_all add: is_capacity_def lower_def lower_char_def upper_letters_def lower_letters_def startswith_def)

lemma total_is_capacity: "is_capacity ''Total capacity (ttpa)''"
  by (simp add: is_capacity_def lower_def lower_char_def upper_letters_def lower_letters_def startswith_def)

lemma columns_strip_names: "columns (strip_names df) = map strip (columns df)"
  by (simp add: strip_names_def columns_def comp_def)

lemma lengths_strip_names:
  "(\<forall>p \<in> set df. length (snd p) = n) \<Longrightarrow> \<forall>p \<in> set (strip_names df). length (snd p) = n"
  by (auto simp: strip_names_def)

lemma nrows_strip_names: "nrows (strip_names df) = nrows df"
  by (cases df) (auto simp: strip_names_def nrows_def split: prod.splits)

lemma set_drop_unnamed: "set (drop_unnamed df) \<subseteq> set df"
  by (cases df) (auto simp: drop_unnamed_def drop_col_def)

lemma columns_drop_col: "columns (drop_col n df) = filter (\<lambda>c. c \<noteq> n) (columns df)"
  by (induction df) (auto simp: drop_col_def columns_def)

lemma map_of_drop_unnamed:
  "c \<in> set (columns (drop_unnamed df)) \<Longrightarrow> map_of (drop_unnamed df) c = map_of df c"
  by (cases df) (auto simp: drop_unnamed_def map_of_drop_col columns_drop_col split: if_splits)

lemma lengths_normalize_name:
  "(\<forall>p \<in> set df. length (snd p) = n)
   \<Longrightarrow> \<forall>p \<in> set (normalize_name old new df). length (snd p) = n"
  by (auto simp: normalize_name_def rename_col_def)

lemma map_of_normalize_name:
  "c \<noteq> old \<Longrightarrow> c \<noteq> new \<Longrightarrow> map_of (normalize_name old new df) c = map_of df c"
  by (simp add: normalize_name_def map_of_rename_col)

lemma capacity_rename:
  "\<not> is_capacity old \<Longrightarrow> \<not> is_capacity new
   \<Longrightarrow> filter is_capacity (map (\<lambda>n. if n = old then new else n) xs) = filter is_capacity xs"
  by (induction xs) auto

lemma capacity_normalize_name:
  "\<not> is_capacity old \<Longrightarrow> \<not> is_capacity new
   \<Longrightarrow> filter is_capacity (columns (normalize_name old new df)) = filter is_capacity (columns df)"
  by (simp add: normalize_name_def columns_rename_col capacity_rename)

lemma columns_setitem:
  "columns (setitem k v df) = (if k \<in> set (columns df) then columns df else columns df @ [k])"
  by (simp add: columns_def keys_setitem)

lemma columns_derive_lat_lon:
  "columns (derive_lat_lon pf df) =
     (if ''Coordinates'' \<in> set (columns df) then
        columns df @ (if ''latitude'' \<in> set (columns df) then [] else [''latitude''])
                   @ (if ''longitude'' \<in> set (columns df) then [] else [''longitude''])
      else columns df)"
  by (simp add: derive_lat_lon_def Let_def columns_setitem)

lemma capacity_derive_lat_lon:
  "filter is_capacity (columns (derive_lat_lon pf df)) = filter is_capacity (columns df)"
  by (simp add: columns_derive_lat_lon not_capacity_names)

lemma get_col_derive_lat_lon:
  "c \<noteq> ''latitude'' \<Longrightarrow> c \<noteq> ''longitude''
   \<Longrightarrow> get_col (derive_lat_lon pf df) c = get_col df c"
  by (simp add: derive_lat_lon_def Let_def get_col_setitem)

lemma get_col_length:
  "(\<forall>p \<in> set df. length (snd p) = n) \<Longrightarrow> c \<in> set (columns df) \<Longrightarrow> length (get_col df c) = n"
  by (induction df) (auto simp: get_col_def columns_def)

lemma lengths_derive_lat_lon:
  "(\<forall>p \<in> set df. length (snd p) = n)
   \<Longrightarrow> \<forall>p \<in> set (derive_lat_lon pf df). length (snd p) = n"
proof -
  assume u: "\<forall>p \<in> set df. length (snd p) = n"
  have *: "\<forall>p \<in> set (setitem k v d). length (snd p) = n"
    if "\<forall>p \<in> set d. length (snd p) = n" "length v = n" for k v and d :: "'a dataframe"
    using that set_setitem [of k v d] by auto
  have len: "length (get_col df ''Coordinates'') = n" if "''Coordinates'' \<in> set (columns df)"
    using u that by (rule get_col_length)
  show ?thesis
    unfolding derive_lat_lon_def Let_def
    by (intro conjI impI * u | simp add: len | simp only: if_split)+
qed

lemma capacity_before_total:
  "filter is_capacity (columns (before_total pf df)) = filter is_capacity (columns (trimmed df))"
  by (simp add: before_total_def renamed_def capacity_derive_lat_lon capacity_normalize_name
      not_capacity_names)

lemma get_col_before_total:
  assumes "is_capacity c" "c \<in> set (columns (trimmed df))"
  shows "get_col (before_total pf df) c = get_col (strip_names df) c"
proof -
  have ne: "c \<noteq> ''Latitude''" "c \<noteq> ''latitude''" "c \<noteq> ''Longitude''" "c \<noteq> ''longitude''"
    using assms(1) not_capacity_names by auto
  have "get_col (before_total pf df) c = get_col (renamed df) c"
    by (simp add: before_total_def get_col_derive_lat_lon ne)
  also have "\<dots> = get_col (trimmed df) c"
    by (simp add: renamed_def get_col_def map_of_normalize_name ne)
  also have "\<dots> = get_col (strip_names df) c"
    using assms(2) by (simp add: trimmed_def get_col_def map_of_drop_unnamed)
  finally show ?thesis .
qed

lemma lengths_before_total:
  assumes "\<forall>p \<in> set df. length (snd p) = n"
  shows "\<forall>p \<in> set (before_total pf df). length (snd p) = n"
proof -
  have "\<forall>p \<in> set (trimmed df). length (snd p) = n"
    using lengths_strip_names [OF assms] set_drop_unnamed [of "strip_names df"]
    by (auto simp: trimmed_def)
  then show ?thesis
    unfolding before_total_def renamed_def
    by (intro lengths_derive_lat_lon lengths_normalize_name)
qed

lemma nrows_lengths: "(\<forall>p \<in> set df. length (snd p) = n) \<Longrightarrow> df \<noteq> [] \<Longrightarrow> nrows df = n"
  by (cases df) (auto simp: nrows_def)

lemma rectangular_lengths: "rectangular df \<longleftrightarrow> (\<forall>p \<in> set df. length (snd p) = nrows df)"
  by (simp add: rectangular_def)

lemma to_numeric_not_Str: "to_numeric tn v \<noteq> Str s"
  by (cases v) (auto split: option.splits elim: float_cell.elims)

lemma to_numeric_NA_iff: "to_numeric tn v = NA \<longleftrightarrow> (\<forall>r. to_numeric tn v \<noteq> Num r)"
  using to_numeric_not_Str [of tn v] by (cases "to_numeric tn v") auto

lemma numbers_empty_iff: "numbers vs = [] \<longleftrightarrow> (\<forall>v \<in> set vs. \<forall>r. v \<noteq> Num r)"
  by (induction vs) (auto simp: numbers_def split: cell.splits)

lemma sum_min_count1_NA:
  "sum_min_count1 rs vs = NA
   \<longleftrightarrow> (\<forall>v \<in> set vs. \<forall>r. v \<noteq> Num r) \<or> rs (map number_or_zero vs) = Nan"
  by (cases "rs (map number_or_zero vs)") (auto simp: sum_min_count1_def numbers_empty_iff)

lemma row_sums_nth:
  "i < n \<Longrightarrow> row_sums rs n cols ! i = sum_min_count1 rs (map (\<lambda>col. col ! i) cols)"
  by (simp add: row_sums_def)

lemma filter_name:
  "distinct (map fst df) \<Longrightarrow> c \<in> fst ` set df
   \<Longrightarrow> map snd (filter (\<lambda>p. fst p = c) df) = [get_col df c]"
proof (induction df)
  case Nil
  then show ?case by simp
next
  case (Cons p df)
  show ?case
  proof (cases "fst p = c")
    case True
    from Cons.prems(1) True have "\<forall>q \<in> set df. fst q \<noteq> c" by (auto simp: image_iff)
    then have "filter (\<lambda>q. fst q = c) df = []" by (simp add: filter_empty_conv)
    with True show ?thesis by (cases p) (simp add: get_col_def)
  next
    case False
    with Cons show ?thesis by (cases p) (auto simp: get_col_def)
  qed
qed

lemma select_columns_distinct:
  assumes "distinct (columns df)" "set names \<subseteq> set (columns df)"
  shows "select_columns df names = map (get_col df) names"
  using assms(2)
proof (induction names)
  case Nil
  then show ?case by (simp add: select_columns_def)
next
  case (Cons c names)
  then have "map snd (filter (\<lambda>p. fst p = c) df) = [get_col df c]"
    using assms(1) by (intro filter_name) (auto simp: columns_def)
  with Cons show ?case by (simp add: select_columns_def)
qed

lemma get_col_add_total:
  "distinct (columns d) \<Longrightarrow> filter is_capacity (columns d) \<noteq> []
   \<Longrightarrow> get_col (add_total tn rs d) ''Total capacity (ttpa)'' =
       row_sums rs (nrows d)
         (map (\<lambda>c. map (to_numeric tn) (get_col d c)) (filter is_capacity (columns d)))"
  by (simp add: add_total_def Let_def get_col_setitem select_columns_distinct comp_def)

lemma columns_add_total:
  "columns (add_total tn rs d) =
     (if filter is_capacity (columns d) = [] \<or> ''Total capacity (ttpa)'' \<in> set (columns d)
      then columns d else columns d @ [''Total capacity (ttpa)''])"
  by (simp add: add_total_def Let_def columns_setitem)

lemma distinct_renamed_names:
  "distinct xs \<Longrightarrow> new \<notin> set xs \<Longrightarrow> distinct (map (\<lambda>n. if n = old then new else n) xs)"
  by (induction xs) auto

lemma distinct_normalize_name:
  "distinct (columns d) \<Longrightarrow> distinct (columns (normalize_name old new d))"
  by (simp add: normalize_name_def columns_rename_col distinct_renamed_names)

lemma columns_drop_unnamed:
  "columns (drop_unnamed d) = columns d
   \<or> (\<exists>n. columns (drop_unnamed d) = filter (\<lambda>c. c \<noteq> n) (columns d))"
  by (cases d) (auto simp: drop_unnamed_def columns_drop_col)

lemma distinct_trimmed:
  assumes "distinct (map strip (columns df))"
  shows "distinct (columns (trimmed df))"
proof -
  have "distinct (columns (strip_names df))"
    using assms by (simp add: columns_strip_names)
  then show ?thesis
    using columns_drop_unnamed [of "strip_names df"] by (auto simp: trimmed_def)
qed

lemma distinct_before_total:
  assumes "distinct (map strip (columns df))"
  shows "distinct (columns (before_total pf df))"
proof -
  have "distinct (columns (renamed df))"
    unfolding renamed_def by (intro distinct_normalize_name distinct_trimmed assms)
  then show ?thesis
    by (simp add: before_total_def columns_derive_lat_lon)
qed

subsection \<open>The derived total capacity\<close>

text \<open>
  Claim C3, the claim as stated fails, in three ways.  The capacity-like columns are
  collected after the leading unnamed column is dropped, so a frame whose only
  capacity-like column is a leading column named \<^verbatim>\<open>Unnamed capacity\<close> gets no
  total.  Two capacity-like columns whose names are equal once trimmed are each selected
  twice, so the total of 1 and 2 is 6.  And the total of a row that holds both
  infinities is missing although no contributing value is.
\<close>

theorem total_capacity_dropped_counterexample:
  "is_capacity ''Unnamed capacity''
   \<and> ''Total capacity (ttpa)''
       \<notin> set (columns (standardize_columns decimal_float decimal_float exact_sum
                         [(''Unnamed capacity'', [Num 1])]))
   \<and> standardize_columns decimal_float decimal_float exact_sum
        [('' Capacity'', [Num 1]), (''Capacity '', [Num 2])]
     = [(''Capacity'', [Num 1]), (''Capacity'', [Num 2]), (''Total capacity (ttpa)'', [Num 6])]
   \<and> standardize_columns (\<lambda>s. None) (\<lambda>s. None) extended_sum
        [(''Capacity A'', [Num PInf]), (''Capacity B'', [Num MInf])]
     = [(''Capacity A'', [Num PInf]), (''Capacity B'', [Num MInf]),
        (''Total capacity (ttpa)'', [NA])]"
  by code_simp

text \<open>
  Claim C3, amended.  For every input frame whose column names stay distinct once they
  are trimmed, and that still has a capacity-like column once the names are trimmed and
  the leading unnamed column is dropped, standardization produces the total-capacity
  column.  Its value on row \<open>i\<close> is missing if and only if every capacity-like column,
  coerced to numeric, is missing on that row, or the sum is itself not a number;
  otherwise it is the sum, as the machine computes it, of the coerced values of the row
  with zero for each missing one.
\<close>

theorem total_capacity_rowwise:
  assumes "distinct (map strip (columns df))" "rectangular df"
    and "caps = filter is_capacity (columns (trimmed df))"
    and "caps \<noteq> []"
    and "i < nrows df"
  shows "''Total capacity (ttpa)'' \<in> set (columns (standardize_columns pf tn rs df))
     \<and> (let vals = map (\<lambda>c. to_numeric tn (get_col (strip_names df) c ! i)) caps;
             total = get_col (standardize_columns pf tn rs df) ''Total capacity (ttpa)'' ! i
         in (total = NA \<longleftrightarrow> (\<forall>v \<in> set vals. v = NA) \<or> rs (map number_or_zero vals) = Nan)
            \<and> (total \<noteq> NA \<longrightarrow> total = float_cell (rs (map number_or_zero vals))))"
proof -
  define d where "d = before_total pf df"
  define n where "n = nrows df"
  have caps: "filter is_capacity (columns d) = caps"
    by (simp add: d_def assms(3) capacity_before_total)
  then have "columns d \<noteq> []" using assms(4) by auto
  then have ne: "d \<noteq> []" by (auto simp: columns_def)
  have dist: "distinct (columns d)"
    unfolding d_def using assms(1) by (rule distinct_before_total)
  have "\<forall>p \<in> set df. length (snd p) = n"
    using assms(2) by (simp add: rectangular_def n_def)
  then have len: "\<forall>p \<in> set d. length (snd p) = n"
    unfolding d_def by (rule lengths_before_total)
  then have nd: "nrows d = n" using ne by (rule nrows_lengths)
  have incols: "c \<in> set (columns d)" if "c \<in> set caps" for c
  proof -
    from that have "c \<in> set (filter is_capacity (columns d))" by (simp only: caps)
    then show ?thesis by simp
  qed
  have col: "get_col d c = get_col (strip_names df) c" if "c \<in> set caps" for c
    using that unfolding d_def assms(3) by (intro get_col_before_total) auto
  have lencol: "length (get_col d c) = n" if "c \<in> set caps" for c
    using len incols [OF that] by (rule get_col_length)
  define vals where "vals = map (\<lambda>c. to_numeric tn (get_col (strip_names df) c ! i)) caps"
  have "get_col (standardize_columns pf tn rs df) ''Total capacity (ttpa)'' ! i
        = row_sums rs n (map (\<lambda>c. map (to_numeric tn) (get_col d c)) caps) ! i"
    using assms(4) caps dist
    by (simp add: standardize_columns_def d_def [symmetric] get_col_add_total nd)
  also have "\<dots> = sum_min_count1 rs (map (\<lambda>c. map (to_numeric tn) (get_col d c) ! i) caps)"
    using assms(5) by (simp add: row_sums_nth n_def comp_def)
  also have "map (\<lambda>c. map (to_numeric tn) (get_col d c) ! i) caps = vals"
    unfolding vals_def using assms(5) lencol col by (auto simp: n_def)
  finally have total:
    "get_col (standardize_columns pf tn rs df) ''Total capacity (ttpa)'' ! i
     = sum_min_count1 rs vals" .
  have noStr: "v = NA \<longleftrightarrow> (\<forall>r. v \<noteq> Num r)" if "v \<in> set vals" for v
    using that to_numeric_NA_iff [of tn] by (auto simp: vals_def)
  have iff: "sum_min_count1 rs vals = NA
             \<longleftrightarrow> (\<forall>v \<in> set vals. v = NA) \<or> rs (map number_or_zero vals) = Nan"
    using noStr by (auto simp: sum_min_count1_NA)
  have val: "sum_min_count1 rs vals \<noteq> NA
             \<longrightarrow> sum_min_count1 rs vals = float_cell (rs (map number_or_zero vals))"
    by (simp add: sum_min_count1_def)
  have incl: "''Total capacity (ttpa)'' \<in> set (columns (standardize_columns pf tn rs df))"
    using assms(4) caps
    by (simp add: standardize_columns_def d_def [symmetric] columns_add_total)
  show ?thesis
    using incl iff val unfolding Let_def total vals_def [symmetric] by simp
qed

theorem total_capacity_rowwise_witness:
  "distinct (map strip (columns capacity_frame))
   \<and> rectangular capacity_frame
   \<and> filter is_capacity (columns (trimmed capacity_frame)) = [''Capacity A'', ''capacity b'']
   \<and> 1 < nrows capacity_frame
   \<and> ''Total capacity (ttpa)''
       \<in> set (columns (standardize_columns decimal_float decimal_float exact_sum capacity_frame))
   \<and> get_col (standardize_columns decimal_float decimal_float exact_sum capacity_frame)
        ''Total capacity (ttpa)''
     = [Num 10, Num 5, NA]"
proof -
  have h1: "distinct (map strip (columns capacity_frame))"
    by code_simp
  have h2: "rectangular capacity_frame"
    by code_simp
  have h3: "[''Capacity A'', ''capacity b''] = filter is_capacity (columns (trimmed capacity_frame))"
    by code_simp
  have h4: "[''Capacity A'', ''capacity b''] \<noteq> []"
    by simp
  have h5: "1 < nrows capacity_frame"
    by code_simp
  have v: "map (\<lambda>c. to_numeric decimal_float (get_col (strip_names capacity_frame) c ! 1))
             [''Capacity A'', ''capacity b''] = [NA, Num 5]"
    by code_simp
  have e: "get_col (standardize_columns decimal_float decimal_float exact_sum capacity_frame)
             ''Total capacity (ttpa)'' = [Num 10, Num 5, NA]"
    by code_simp
  have "get_col (standardize_columns decimal_float decimal_float exact_sum capacity_frame)
          ''Total capacity (ttpa)'' ! 1 = Num 5"
    using total_capacity_rowwise [OF h1 h2 h3 h4 h5, of decimal_float decimal_float exact_sum]
    unfolding Let_def v by (auto simp: exact_sum_def)
  then show ?thesis
    using total_capacity_rowwise [OF h1 h2 h3 h4 h5, of decimal_float decimal_float exact_sum]
      h1 h2 h3 h5 e
    by simp
qed

subsection \<open>Latitude and longitude\<close>

lemma columns_normalize_name:
  "columns (normalize_name old new d) =
     (if old \<in> set (columns d) \<and> new \<notin> set (columns d)
      then map (\<lambda>n. if n = old then new else n) (columns d) else columns d)"
  by (simp add: normalize_name_def columns_rename_col)

lemma mem_normalize_name:
  "c \<in> set (columns (normalize_name old new d)) \<longleftrightarrow>
     (if old \<in> set (columns d) \<and> new \<notin> set (columns d)
      then c = new \<or> (c \<noteq> old \<and> c \<in> set (columns d))
      else c \<in> set (columns d))"
  by (auto simp: columns_normalize_name)

lemma map_of_rename_col_new:
  "new \<notin> set (columns df) \<Longrightarrow> map_of (rename_col old new df) new = map_of df old"
  unfolding rename_col_def columns_def by (induction df) auto

lemma get_col_normalize_name_new:
  "get_col (normalize_name old new df) new =
     (if new \<in> set (columns df) then get_col df new else get_col df old)"
proof (cases "old \<in> set (columns df) \<and> new \<notin> set (columns df)")
  case True
  then show ?thesis
    by (simp add: normalize_name_def get_col_def map_of_rename_col_new)
next
  case False
  then have "new \<notin> set (columns df) \<Longrightarrow> map_of df new = None \<and> map_of df old = None"
    by (auto simp: columns_def map_of_eq_None_iff)
  with False show ?thesis
    by (auto simp: normalize_name_def get_col_def)
qed

lemma get_col_normalize_name_other:
  "c \<noteq> old \<Longrightarrow> c \<noteq> new \<Longrightarrow> get_col (normalize_name old new df) c = get_col df c"
  by (simp add: get_col_def map_of_normalize_name)

lemma get_col_add_total_other:
  "c \<noteq> ''Total capacity (ttpa)'' \<Longrightarrow> get_col (add_total tn rs d) c = get_col d c"
  by (simp add: add_total_def Let_def get_col_setitem)

lemma extract_lat_lon_numeric:
  "fst (extract_lat_lon pf v) \<noteq> Str s \<and> snd (extract_lat_lon pf v) \<noteq> Str s"
proof -
  have fc: "float_cell f \<noteq> Str s" for f by (cases f) auto
  show ?thesis
    by (cases v) (auto simp: Let_def fc split: option.splits)
qed

lemma get_col_derived:
  assumes "''Coordinates'' \<in> set (columns d)"
  shows "''latitude'' \<notin> set (columns d)
         \<Longrightarrow> get_col (derive_lat_lon pf d) ''latitude''
             = map (\<lambda>v. fst (extract_lat_lon pf v)) (get_col d ''Coordinates'')"
    and "''longitude'' \<notin> set (columns d)
         \<Longrightarrow> get_col (derive_lat_lon pf d) ''longitude''
             = map (\<lambda>v. snd (extract_lat_lon pf v)) (get_col d ''Coordinates'')"
  using assms by (simp_all add: derive_lat_lon_def Let_def get_col_setitem columns_setitem comp_def)

lemma get_col_not_derived:
  "c \<in> set (columns d) \<Longrightarrow> get_col (derive_lat_lon pf d) c = get_col d c"
  by (auto simp: derive_lat_lon_def Let_def get_col_setitem columns_setitem)

text \<open>
  Claim C9, the claim as stated fails: a column \<^verbatim>\<open>Latitude\<close> is renamed and its
  values are kept as they are, strings included.
\<close>

theorem lat_lon_renamed_counterexample:
  "get_col (standardize_columns decimal_float decimal_float exact_sum [(''Latitude'', [Str ''north''])])
     ''latitude'' = [Str ''north'']"
  by code_simp

text \<open>
  Claim C9, amended.  After standardization, every value of a \<^verbatim>\<open>latitude\<close> or
  \<^verbatim>\<open>longitude\<close> column that is derived from the \<^verbatim>\<open>Coordinates\<close> column is a
  number or missing.  A \<^verbatim>\<open>latitude\<close> or \<^verbatim>\<open>longitude\<close> column that the trimmed
  input already has, or that comes from renaming \<^verbatim>\<open>Latitude\<close> or
  \<^verbatim>\<open>Longitude\<close>, has the values of that input column unchanged.
\<close>

theorem lat_lon_values:
  "(''Coordinates'' \<in> set (columns (trimmed df))
      \<and> ''latitude'' \<notin> set (columns (trimmed df)) \<and> ''Latitude'' \<notin> set (columns (trimmed df))
      \<longrightarrow> (\<forall>v \<in> set (get_col (standardize_columns pf tn rs df) ''latitude'').
             v = NA \<or> (\<exists>r. v = Num r)))
   \<and> (''Coordinates'' \<in> set (columns (trimmed df))
      \<and> ''longitude'' \<notin> set (columns (trimmed df)) \<and> ''Longitude'' \<notin> set (columns (trimmed df))
      \<longrightarrow> (\<forall>v \<in> set (get_col (standardize_columns pf tn rs df) ''longitude'').
             v = NA \<or> (\<exists>r. v = Num r)))
   \<and> (''latitude'' \<in> set (columns (trimmed df))
      \<longrightarrow> get_col (standardize_columns pf tn rs df) ''latitude'' = get_col (trimmed df) ''latitude'')
   \<and> (''longitude'' \<in> set (columns (trimmed df))
      \<longrightarrow> get_col (standardize_columns pf tn rs df) ''longitude'' = get_col (trimmed df) ''longitude'')
   \<and> (''Latitude'' \<in> set (columns (trimmed df)) \<and> ''latitude'' \<notin> set (columns (trimmed df))
      \<longrightarrow> get_col (standardize_columns pf tn rs df) ''latitude'' = get_col (trimmed df) ''Latitude'')
   \<and> (''Longitude'' \<in> set (columns (trimmed df)) \<and> ''longitude'' \<notin> set (columns (trimmed df))
      \<longrightarrow> get_col (standardize_columns pf tn rs df) ''longitude'' = get_col (trimmed df) ''Longitude'')"
proof -
  define t where "t = trimmed df"
  define r where "r = renamed df"
  have std: "get_col (standardize_columns pf tn rs df) c = get_col (derive_lat_lon pf r) c"
    if "c = ''latitude'' \<or> c = ''longitude''" for c
    using that by (auto simp: standardize_columns_def before_total_def r_def get_col_add_total_other)
  have coord: "''Coordinates'' \<in> set (columns r) \<longleftrightarrow> ''Coordinates'' \<in> set (columns t)"
    by (simp add: r_def renamed_def t_def mem_normalize_name)
  have lat: "''latitude'' \<in> set (columns r)
             \<longleftrightarrow> ''latitude'' \<in> set (columns t) \<or> ''Latitude'' \<in> set (columns t)"
    by (auto simp: r_def renamed_def t_def mem_normalize_name)
  have lon: "''longitude'' \<in> set (columns r)
             \<longleftrightarrow> ''longitude'' \<in> set (columns t) \<or> ''Longitude'' \<in> set (columns t)"
    by (auto simp: r_def renamed_def t_def mem_normalize_name)
  have rlat: "get_col r ''latitude''
              = (if ''latitude'' \<in> set (columns t) then get_col t ''latitude'' else get_col t ''Latitude'')"
    by (simp add: r_def renamed_def t_def get_col_normalize_name_other
        get_col_normalize_name_new)
  have rlon: "get_col r ''longitude''
              = (if ''longitude'' \<in> set (columns t) then get_col t ''longitude'' else get_col t ''Longitude'')"
    by (simp add: r_def renamed_def t_def get_col_normalize_name_new mem_normalize_name
        get_col_normalize_name_other)
  have numeric: "v = NA \<or> (\<exists>q. v = Num q)" if "\<And>s. v \<noteq> Str s" for v
    using that by (cases v) auto
  have A: "\<forall>v \<in> set (get_col (standardize_columns pf tn rs df) ''latitude''). v = NA \<or> (\<exists>r. v = Num r)"
    if "''Coordinates'' \<in> set (columns t)" "''latitude'' \<notin> set (columns t)"
       "''Latitude'' \<notin> set (columns t)"
    using that coord lat
    by (auto simp: std get_col_derived intro!: numeric simp: extract_lat_lon_numeric)
  have B: "\<forall>v \<in> set (get_col (standardize_columns pf tn rs df) ''longitude''). v = NA \<or> (\<exists>r. v = Num r)"
    if "''Coordinates'' \<in> set (columns t)" "''longitude'' \<notin> set (columns t)"
       "''Longitude'' \<notin> set (columns t)"
    using that coord lon
    by (auto simp: std get_col_derived intro!: numeric simp: extract_lat_lon_numeric)
  have C: "get_col (standardize_columns pf tn rs df) ''latitude'' = get_col t ''latitude''"
    if "''latitude'' \<in> set (columns t)"
    using that lat by (simp add: std get_col_not_derived rlat)
  have D: "get_col (standardize_columns pf tn rs df) ''longitude'' = get_col t ''longitude''"
    if "''longitude'' \<in> set (columns t)"
    using that lon by (simp add: std get_col_not_derived rlon)
  have E: "get_col (standardize_columns pf tn rs df) ''latitude'' = get_col t ''Latitude''"
    if "''Latitude'' \<in> set (columns t)" "''latitude'' \<notin> set (columns t)"
    using that lat by (simp add: std get_col_not_derived rlat)
  have F: "get_col (standardize_columns pf tn rs df) ''longitude'' = get_col t ''Longitude''"
    if "''Longitude'' \<in> set (columns t)" "''longitude'' \<notin> set (columns t)"
    using that lon by (simp add: std get_col_not_derived rlon)
  show ?thesis
    unfolding t_def [symmetric] using A B C D E F by blast
qed

theorem lat_lon_values_witness:
  "''Coordinates'' \<in> set (columns (trimmed coordinates_frame))
   \<and> ''latitude'' \<notin> set (columns (trimmed coordinates_frame))
   \<and> ''longitude'' \<notin> set (columns (trimmed coordinates_frame))
   \<and> set (get_col (standardize_columns decimal_float decimal_float exact_sum coordinates_frame)
             ''latitude'') \<subseteq> insert NA (range Num)
   \<and> set (get_col (standardize_columns decimal_float decimal_float exact_sum coordinates_frame)
             ''longitude'') \<subseteq> insert NA (range Num)
   \<and> ''longitude'' \<in> set (columns (trimmed lowercase_frame))
   \<and> get_col (standardize_columns decimal_float decimal_float exact_sum lowercase_frame) ''latitude''
       = [Num 1, NA]
   \<and> get_col (standardize_columns decimal_float decimal_float exact_sum lowercase_frame) ''longitude''
       = [Str ''east'', Num 2]
   \<and> ''Latitude'' \<in> set (columns (trimmed uppercase_frame))
   \<and> get_col (standardize_columns decimal_float decimal_float exact_sum uppercase_frame) ''latitude''
       = [Num 1, NA]
   \<and> get_col (standardize_columns decimal_float decimal_float exact_sum uppercase_frame) ''longitude''
       = [Str ''east'', Num 2]"
proof -
  have c: "columns (trimmed coordinates_frame) = [''Plant ID'', ''Coordinates'']"
    by code_simp
  have l: "trimmed lowercase_frame = lowercase_frame"
    by code_simp
  have u: "trimmed uppercase_frame
           = [(''Latitude'', [Num 1, NA]), (''Longitude'', [Str ''east'', Num 2])]"
    by code_simp
  show ?thesis
    using lat_lon_values [where df = coordinates_frame and pf = decimal_float and tn = decimal_float
        and rs = exact_sum]
      lat_lon_values [where df = lowercase_frame and pf = decimal_float and tn = decimal_float
        and rs = exact_sum]
      lat_lon_values [where df = uppercase_frame and pf = decimal_float and tn = decimal_float
        and rs = exact_sum]
    unfolding c l u by (auto simp: get_col_def columns_def lowercase_frame_def)
qed

subsection \<open>Standardizing twice\<close>

lemma dropWhile_rev_fix:
  assumes "dropWhile P t = t"
  shows "dropWhile P (rev (dropWhile P (rev t))) = rev (dropWhile P (rev t))"
proof (cases t)
  case Nil
  then show ?thesis by simp
next
  case (Cons x xs)
  have nx: "\<not> P x"
  proof
    assume "P x"
    with assms Cons have "dropWhile P xs = x # xs" by simp
    then have "length (dropWhile P xs) = Suc (length xs)" by simp
    then show False using length_dropWhile_le [of P xs] by simp
  qed
  have "dropWhile P (rev t) = dropWhile P (rev xs) @ [x]"
    using nx by (simp add: Cons dropWhile_append3)
  then show ?thesis using nx by simp
qed

lemma strip_strip: "strip (strip s) = strip s"
proof -
  define u where "u = strip s"
  have 1: "dropWhile isspace u = u"
    unfolding u_def strip_def by (rule dropWhile_rev_fix) (rule dropWhile_idem)
  have 2: "dropWhile isspace (rev u) = rev u"
    unfolding u_def strip_def by (simp add: dropWhile_idem)
  have "strip u = u"
    by (simp add: strip_def [of u] 1 2)
  then show ?thesis by (simp add: u_def)
qed

lemma strip_names_fix: "(\<forall>c \<in> set (columns d). strip c = c) \<Longrightarrow> strip_names d = d"
  by (induction d) (auto simp: strip_names_def columns_def)

lemma strip_literals:
  "strip ''latitude'' = ''latitude''" "strip ''longitude'' = ''longitude''"
  "strip ''Total capacity (ttpa)'' = ''Total capacity (ttpa)''"
  by (simp_all add: strip_def isspace_def)

lemma columns_trimmed_stripped: "c \<in> set (columns (trimmed df)) \<Longrightarrow> strip c = c"
  using set_drop_unnamed [of "strip_names df"]
  by (auto simp: trimmed_def columns_def strip_names_def strip_strip)

lemma columns_renamed_stripped: "c \<in> set (columns (renamed df)) \<Longrightarrow> strip c = c"
  by (auto simp: renamed_def mem_normalize_name strip_literals columns_trimmed_stripped
      split: if_splits)

lemma columns_standardized_stripped:
  "c \<in> set (columns (standardize_columns pf tn rs df)) \<Longrightarrow> strip c = c"
  by (auto simp: standardize_columns_def columns_add_total before_total_def
      columns_derive_lat_lon strip_literals columns_renamed_stripped split: if_splits)

lemma normalized_renamed:
  "''Latitude'' \<in> set (columns (renamed df)) \<longrightarrow> ''latitude'' \<in> set (columns (renamed df))"
  "''Longitude'' \<in> set (columns (renamed df)) \<longrightarrow> ''longitude'' \<in> set (columns (renamed df))"
  by (auto simp: renamed_def mem_normalize_name split: if_splits)

lemma columns_standardized:
  "set (columns (renamed df)) \<subseteq> set (columns (standardize_columns pf tn rs df))"
  "set (columns (standardize_columns pf tn rs df))
     \<subseteq> set (columns (renamed df)) \<union> {''latitude'', ''longitude'', ''Total capacity (ttpa)''}"
  by (auto simp: standardize_columns_def columns_add_total before_total_def
      columns_derive_lat_lon split: if_splits)

lemma derived_standardized:
  "''Coordinates'' \<in> set (columns (standardize_columns pf tn rs df))
   \<Longrightarrow> ''latitude'' \<in> set (columns (standardize_columns pf tn rs df))
       \<and> ''longitude'' \<in> set (columns (standardize_columns pf tn rs df))"
  by (auto simp: standardize_columns_def columns_add_total before_total_def
      columns_derive_lat_lon split: if_splits)

lemma total_standardized:
  "filter is_capacity (columns (standardize_columns pf tn rs df)) \<noteq> []
   \<Longrightarrow> ''Total capacity (ttpa)'' \<in> set (columns (standardize_columns pf tn rs df))"
  by (auto simp: standardize_columns_def columns_add_total total_is_capacity split: if_splits)

lemma normalize_name_fix:
  "old \<in> set (columns d) \<longrightarrow> new \<in> set (columns d) \<Longrightarrow> normalize_name old new d = d"
  by (auto simp: normalize_name_def)

lemma derive_lat_lon_fix:
  "''Coordinates'' \<in> set (columns d)
     \<longrightarrow> ''latitude'' \<in> set (columns d) \<and> ''longitude'' \<in> set (columns d)
   \<Longrightarrow> derive_lat_lon pf d = d"
  by (auto simp: derive_lat_lon_def)

lemma drop_unnamed_fix: "d = [] \<or> \<not> unnamed (hd (columns d)) \<Longrightarrow> drop_unnamed d = d"
  by (cases d) (auto simp: drop_unnamed_def columns_def)

text \<open>
  Claim C2, the claim as stated fails in two ways.  The second run sums the total of the
  first run into the new total, since the name of the total column contains
  \<^verbatim>\<open>capacity\<close>; and it drops one more column when the frame starts with two unnamed
  columns.
\<close>

theorem standardize_twice_counterexample:
  "standardize_columns decimal_float decimal_float exact_sum [(''Capacity'', [Num 10])]
     = [(''Capacity'', [Num 10]), (''Total capacity (ttpa)'', [Num 10])]
   \<and> standardize_columns decimal_float decimal_float exact_sum
        (standardize_columns decimal_float decimal_float exact_sum [(''Capacity'', [Num 10])])
     = [(''Capacity'', [Num 10]), (''Total capacity (ttpa)'', [Num 20])]
   \<and> standardize_columns decimal_float decimal_float exact_sum
        [(''Unnamed: 0'', [Num 0]), (''Unnamed: 0.1'', [Num 0]), (''Plant ID'', [Str ''P1''])]
     = [(''Unnamed: 0.1'', [Num 0]), (''Plant ID'', [Str ''P1''])]
   \<and> standardize_columns decimal_float decimal_float exact_sum
        (standardize_columns decimal_float decimal_float exact_sum
           [(''Unnamed: 0'', [Num 0]), (''Unnamed: 0.1'', [Num 0]), (''Plant ID'', [Str ''P1''])])
     = [(''Plant ID'', [Str ''P1''])]"
  by code_simp

text \<open>
  Claim C2, amended.  Let \<open>T\<close> be the output of standardization on any frame, and let
  \<open>T\<close> not start with an unnamed column.  Then standardizing \<open>T\<close> again keeps its
  column names, in order, and the values of every column other than the total capacity;
  and when \<open>T\<close> has no capacity-like column, the second run returns \<open>T\<close> itself.
\<close>

theorem standardize_twice:
  assumes "T = standardize_columns pf tn rs df"
    and "T = [] \<or> \<not> unnamed (hd (columns T))"
  shows "columns (standardize_columns pf tn rs T) = columns T
     \<and> (\<forall>c. c \<noteq> ''Total capacity (ttpa)'' \<longrightarrow> get_col (standardize_columns pf tn rs T) c = get_col T c)
     \<and> (filter is_capacity (columns T) = [] \<longrightarrow> standardize_columns pf tn rs T = T)"
proof -
  have 1: "strip_names T = T"
    by (rule strip_names_fix) (auto simp: assms(1) columns_standardized_stripped)
  have 2: "trimmed T = T"
    using assms(2) by (simp add: trimmed_def 1 drop_unnamed_fix)
  have lat: "''Latitude'' \<in> set (columns T) \<longrightarrow> ''latitude'' \<in> set (columns T)"
    using normalized_renamed(1) [of df] columns_standardized [where df = df and pf = pf and tn = tn and rs = rs]
    unfolding assms(1) by auto
  have lon: "''Longitude'' \<in> set (columns T) \<longrightarrow> ''longitude'' \<in> set (columns T)"
    using normalized_renamed(2) [of df] columns_standardized [where df = df and pf = pf and tn = tn and rs = rs]
    unfolding assms(1) by auto
  have 3: "renamed T = T"
    by (simp add: renamed_def 2 normalize_name_fix lat lon)
  have 4: "before_total pf T = T"
    unfolding before_total_def 3
    by (rule derive_lat_lon_fix) (use derived_standardized [where pf = pf and tn = tn and rs = rs and df = df] in \<open>simp add: assms(1)\<close>)
  have 5: "standardize_columns pf tn rs T = add_total tn rs T"
    by (simp add: standardize_columns_def 4)
  have tot: "filter is_capacity (columns T) \<noteq> [] \<Longrightarrow> ''Total capacity (ttpa)'' \<in> set (columns T)"
    unfolding assms(1) by (rule total_standardized)
  have a: "columns (add_total tn rs T) = columns T"
    using tot by (auto simp: columns_add_total)
  have b: "filter is_capacity (columns T) = [] \<longrightarrow> add_total tn rs T = T"
    by (simp add: add_total_def)
  show ?thesis
    unfolding 5 using a b by (simp add: get_col_add_total_other)
qed

theorem standardize_twice_witness:
  "standardize_columns decimal_float decimal_float exact_sum
     (standardize_columns decimal_float decimal_float exact_sum uppercase_frame)
   = standardize_columns decimal_float decimal_float exact_sum uppercase_frame
   \<and> standardize_columns decimal_float decimal_float exact_sum uppercase_frame
     = [(''latitude'', [Num 1, NA]), (''longitude'', [Str ''east'', Num 2])]
   \<and> columns (standardize_columns decimal_float decimal_float exact_sum
                (standardize_columns decimal_float decimal_float exact_sum capacity_frame))
     = [''Capacity A'', ''capacity b'', ''Total capacity (ttpa)'']
   \<and> get_col (standardize_columns decimal_float decimal_float exact_sum
                (standardize_columns decimal_float decimal_float exact_sum capacity_frame)) ''capacity b''
     = [Str ''unknown'', Str ''5'', NA]"
proof -
  let ?U = "[(''latitude'', [Num 1, NA]), (''longitude'', [Str ''east'', Num 2])] :: rat dataframe"
  let ?C = "[(''Capacity A'', [Num 10, NA, NA]), (''capacity b'', [Str ''unknown'', Str ''5'', NA]),
             (''Total capacity (ttpa)'', [Num 10, Num 5, NA])] :: rat dataframe"
  have u: "?U = standardize_columns decimal_float decimal_float exact_sum uppercase_frame"
    by code_simp
  have u1: "?U = [] \<or> \<not> unnamed (hd (columns ?U))"
    by code_simp
  have u2: "filter is_capacity (columns ?U) = []"
    by code_simp
  have c: "?C = standardize_columns decimal_float decimal_float exact_sum capacity_frame"
    by code_simp
  have c1: "?C = [] \<or> \<not> unnamed (hd (columns ?C))"
    by code_simp
  have c2: "columns ?C = [''Capacity A'', ''capacity b'', ''Total capacity (ttpa)'']"
    by (simp add: columns_def)
  have c3: "get_col ?C ''capacity b'' = [Str ''unknown'', Str ''5'', NA]"
    by (simp add: get_col_def)
  show ?thesis
    using standardize_twice [OF u u1] standardize_twice [OF c c1] u2 c2 c3
    unfolding u [symmetric] c [symmetric] by simp
qed

subsection \<open>Grouping and aggregation\<close>

lemma collect_map_Inr: "collect (map Inr vs) = Inr vs"
  by (induction vs) auto

lemma collect_Inr: "collect xs = Inr vs \<longleftrightarrow> xs = map Inr vs"
proof
  show "collect xs = Inr vs \<Longrightarrow> xs = map Inr vs"
    by (induction xs arbitrary: vs) (auto split: sum.splits)
qed (simp add: collect_map_Inr)


lemma agg_column_Inr:
  "agg_column gs os obj df key (c, f) = Inr col \<longleftrightarrow>
     fst col = c
     \<and> map (\<lambda>k. apply_agg gs f (get_col df c) (group_values df key c k)) (group_keys os obj df key) = map Inr (snd col)"
  by (cases col) (auto simp: agg_column_def collect_Inr collect_map_Inr split: sum.splits)

lemma map_of_agg_columns:
  "map (agg_column gs os obj df key) agg = map Inr cols \<Longrightarrow> map_of agg c = Some f
   \<Longrightarrow> \<exists>vs. map_of cols c = Some vs
          \<and> map (\<lambda>k. apply_agg gs f (get_col df c) (group_values df key c k)) (group_keys os obj df key) = map Inr vs"
proof (induction agg arbitrary: cols)
  case Nil
  then show ?case by simp
next
  case (Cons a agg)
  then obtain col cols' where cols: "cols = col # cols'"
    and a: "agg_column gs os obj df key a = Inr col"
    and rest: "map (agg_column gs os obj df key) agg = map Inr cols'"
    by (cases cols) auto
  obtain c' f' where af: "a = (c', f')" by (cases a)
  from a have col: "fst col = c'"
    "map (\<lambda>k. apply_agg gs f' (get_col df c') (group_values df key c' k)) (group_keys os obj df key) = map Inr (snd col)"
    by (simp_all add: af agg_column_Inr)
  show ?case
  proof (cases "c' = c")
    case True
    with Cons.prems(2) af have "f' = f" by simp
    with col True show ?thesis by (cases col) (auto simp: cols)
  next
    case False
    with Cons.prems(2) af have "map_of agg c = Some f" by simp
    from Cons.IH [OF rest this] False col show ?thesis by (cases col) (auto simp: cols)
  qed
qed

lemma columns_key_columns:
  "set (columns (key_columns os obj df key present)) \<subseteq> set key - set present"
  by (auto simp: key_columns_def columns_def split: if_splits)

lemma map_of_append_right: "k \<notin> fst ` set xs \<Longrightarrow> map_of (xs @ ys) k = map_of ys k"
  by (induction xs) auto

lemma agg_output:
  assumes "groupby_agg gs os obj df key agg = Inr out" "map_of agg c = Some f"
    and "j < length (group_keys os obj df key)"
  shows "apply_agg gs f (get_col df c) (group_values df key c (group_keys os obj df key ! j)) = Inr (get_col out c ! j)"
proof -
  from assms(1) obtain cols where out: "out = key_columns os obj df key (map fst agg) @ cols"
    and cols: "map (agg_column gs os obj df key) agg = map Inr cols"
    by (auto simp: groupby_agg_def collect_Inr split: sum.splits)
  from map_of_agg_columns [OF cols assms(2)] obtain vs where
    vs: "map_of cols c = Some vs"
    "map (\<lambda>k. apply_agg gs f (get_col df c) (group_values df key c k)) (group_keys os obj df key) = map Inr vs"
    by blast
  have "c \<in> set (map fst agg)"
    using assms(2) by (metis map_of_eq_None_iff option.distinct(1) set_map)
  then have "c \<notin> fst ` set (key_columns os obj df key (map fst agg))"
    using columns_key_columns [of os obj df key "map fst agg"] by (auto simp: columns_def)
  then have "get_col out c = vs"
    by (simp add: get_col_def out map_of_append_right vs(1) del: map_of_append)
  moreover have "map (\<lambda>k. apply_agg gs f (get_col df c) (group_values df key c k)) (group_keys os obj df key) ! j = map Inr vs ! j"
    by (simp only: vs(2))
  moreover have "length vs = length (group_keys os obj df key)"
    using vs(2) by (metis length_map)
  ultimately show ?thesis using assms(3) by simp
qed

lemma agg_output_length:
  assumes "groupby_agg gs os obj df key agg = Inr out" "map_of agg c = Some f"
  shows "length (get_col out c) = length (group_keys os obj df key)"
proof -
  from assms(1) obtain cols where out: "out = key_columns os obj df key (map fst agg) @ cols"
    and cols: "map (agg_column gs os obj df key) agg = map Inr cols"
    by (auto simp: groupby_agg_def collect_Inr split: sum.splits)
  from map_of_agg_columns [OF cols assms(2)] obtain vs where
    vs: "map_of cols c = Some vs"
    "map (\<lambda>k. apply_agg gs f (get_col df c) (group_values df key c k)) (group_keys os obj df key) = map Inr vs"
    by blast
  have "c \<in> set (map fst agg)"
    using assms(2) by (metis map_of_eq_None_iff option.distinct(1) set_map)
  then have "c \<notin> fst ` set (key_columns os obj df key (map fst agg))"
    using columns_key_columns [of os obj df key "map fst agg"] by (auto simp: columns_def)
  then have "get_col out c = vs"
    by (simp add: get_col_def out map_of_append_right vs(1) del: map_of_append)
  moreover have "length vs = length (group_keys os obj df key)"
    using vs(2) by (metis length_map)
  ultimately show ?thesis by simp
qed

lemma map_of_fold_setitem:
  "map_of (fold (\<lambda>c agg. setitem c v agg) cs al) x
     = (if x \<in> set cs then Some v else map_of al x)"
  by (induction cs arbitrary: al) (auto simp: map_of_setitem)

lemma keys_set_setitem: "fst ` set (setitem k v al) = insert k (fst ` set al)"
  by (induction al) auto

lemma map_of_fold_first:
  "map_of (fold (\<lambda>c agg. if c \<in> fst ` set agg then setitem c First agg else agg) cs al) x
     = (if x \<in> set cs \<and> x \<in> fst ` set al then Some First else map_of al x)"
proof (induction cs arbitrary: al)
  case Nil
  then show ?case by simp
next
  case (Cons c cs)
  show ?case
    by (auto simp: Cons.IH keys_set_setitem map_of_setitem)
qed

lemma map_of_agg0:
  "map_of (map (\<lambda>c. (c, First)) (filter (\<lambda>c. c \<notin> set key) cs)) x
     = (if x \<in> set cs \<and> x \<notin> set key then Some First else None)"
  by (induction cs) auto

lemma first_fields_plain:
  "\<forall>c \<in> set first_fields. \<not> is_capacity c \<and> c \<noteq> ''Workforce size''"
  by code_simp

lemma agg_spec_first:
  assumes "c \<in> set (columns df)" "c \<notin> set key" "\<not> is_capacity c" "c \<noteq> ''Workforce size''"
  shows "map_of (agg_spec df key) c = Some First"
proof -
  have "c \<notin> set (numeric_sum df)"
    using assms(3) total_is_capacity by (auto simp: numeric_sum_def)
  then show ?thesis
    using assms
    by (simp add: agg_spec_def Let_def map_of_fold_first map_of_fold_setitem map_of_agg0
        map_of_setitem)
qed

lemma agg_spec_sum:
  assumes "c \<in> set (columns df)" "is_capacity c"
  shows "map_of (agg_spec df key) c = Some Sum"
proof -
  have "c \<in> set (numeric_sum df)"
    using assms by (auto simp: numeric_sum_def)
  moreover have "c \<notin> set first_fields" "c \<noteq> ''Workforce size''"
    using first_fields_plain assms(2) by (auto, code_simp)
  ultimately show ?thesis
    by (simp add: agg_spec_def Let_def map_of_fold_first map_of_fold_setitem map_of_setitem)
qed


lemma agg_first_missing: "(\<forall>v \<in> set vs. v = NA) \<Longrightarrow> agg_first vs = NA"
  by (simp add: agg_first_def nonmissing_def filter_empty_conv [THEN iffD2])

lemma agg_first_append:
  "(\<forall>v \<in> set us. v = NA) \<Longrightarrow> v \<noteq> NA \<Longrightarrow> agg_first (us @ v # ws) = v"
  by (simp add: agg_first_def nonmissing_def filter_empty_conv [THEN iffD2])

lemma group_rows_split:
  assumes "i < nrows df" "row_key df key i = k"
  shows "group_rows df key k
         = filter (\<lambda>i'. row_key df key i' = k) [0..<i] @ i
           # filter (\<lambda>i'. row_key df key i' = k) [Suc i..<nrows df]"
proof -
  have "[0..<nrows df] = [0..<i] @ i # [Suc i..<nrows df]"
  proof -
    have "[0..<nrows df] = [0..<i] @ [i..<nrows df]"
      using assms(1) upt_add_eq_append [of 0 i "nrows df - i"] by simp
    then show ?thesis
      using assms(1) by (simp add: upt_conv_Cons)
  qed
  then show ?thesis
    using assms(2) by (simp add: group_rows_def)
qed

lemma group_first_value:
  assumes "i < nrows df" "row_key df key i = k" "get_col df c ! i \<noteq> NA"
    and "\<forall>i' < i. row_key df key i' = k \<longrightarrow> get_col df c ! i' = NA"
  shows "agg_first (group_values df key c k) = get_col df c ! i"
  unfolding group_values_def group_rows_split [OF assms(1,2)]
  using assms(3,4) by (simp add: agg_first_append)

lemma group_all_missing:
  assumes "\<forall>i < nrows df. row_key df key i = k \<longrightarrow> get_col df c ! i = NA"
  shows "agg_first (group_values df key c k) = NA"
  using assms by (intro agg_first_missing) (auto simp: group_values_def group_rows_def)


lemma set_group_keys: "set (group_keys os obj df key) = row_key df key ` {0..<nrows df}"
  by (simp add: group_keys_def uniques_def)

lemma distinct_group_keys: "distinct (group_keys os obj df key)"
  by (simp add: group_keys_def uniques_def)









lemma length_group_key: "k \<in> set (group_keys os obj df key) \<Longrightarrow> length k = length key"
  by (auto simp: set_group_keys row_key_def)

lemma concat_keep_all:
  "(\<forall>j \<in> set js. \<not> P j) \<Longrightarrow> concat (map (\<lambda>j. if P j then [] else [g j]) js) = map g js"
  by (induction js) auto

lemma key_columns_disjoint:
  assumes "set key \<inter> set present = {}"
  shows "key_columns os obj df key present
         = zip key (map (\<lambda>j. map (\<lambda>k. k ! j) (group_keys os obj df key)) [0..<length key])"
proof -
  have "key_columns os obj df key present
        = map (\<lambda>j. (key ! j, map (\<lambda>k. k ! j) (group_keys os obj df key))) [0..<length key]"
  proof -
    have "\<forall>j \<in> set [0..<length key]. \<not> key ! j \<in> set present"
    proof
      fix j assume "j \<in> set [0..<length key]"
      then have "key ! j \<in> set key" by simp
      with assms show "\<not> key ! j \<in> set present" by blast
    qed
    then show ?thesis
      unfolding key_columns_def by (rule concat_keep_all)
  qed
  also have "\<dots> = zip key (map (\<lambda>j. map (\<lambda>k. k ! j) (group_keys os obj df key)) [0..<length key])"
    by (rule nth_equalityI) auto
  finally show ?thesis .
qed

lemma grouping_key_distinct: "grouping_key df = Inr key \<Longrightarrow> distinct key"
  by (auto simp: grouping_key_def Let_def split: if_splits list.splits)



lemma agg_spec_key:
  assumes "c \<in> set key" "\<not> is_capacity c" "c \<noteq> ''Workforce size''"
  shows "c \<notin> fst ` set (agg_spec df key)"
proof -
  define agg1 where "agg1 = fold (\<lambda>c agg. setitem c Sum agg) (numeric_sum df)
     (map (\<lambda>c. (c, First)) (filter (\<lambda>c. c \<notin> set key) (columns df)))"
  define agg2 where "agg2 = (if ''Workforce size'' \<in> set (columns df)
     then setitem ''Workforce size'' Max agg1 else agg1)"
  have spec: "agg_spec df key
     = fold (\<lambda>c agg. if c \<in> fst ` set agg then setitem c First agg else agg) first_fields agg2"
    by (simp add: agg_spec_def agg1_def agg2_def Let_def)
  have ns: "c \<notin> set (numeric_sum df)"
    using assms(2) total_is_capacity by (auto simp: numeric_sum_def)
  have "map_of agg2 c = None"
    using assms ns by (simp add: agg2_def agg1_def map_of_fold_setitem map_of_agg0 map_of_setitem)
  then have "c \<notin> fst ` set agg2"
    by (simp add: map_of_eq_None_iff)
  then have "map_of (agg_spec df key) c = None"
    by (simp add: spec map_of_fold_first map_of_eq_None_iff)
  then show ?thesis by (simp add: map_of_eq_None_iff)
qed

lemma output_lengths:
  assumes "groupby_agg gs os obj df key agg = Inr out"
  shows "\<forall>p \<in> set out. length (snd p) = length (group_keys os obj df key)"
proof -
  from assms obtain cols where out: "out = key_columns os obj df key (map fst agg) @ cols"
    and cols: "map (agg_column gs os obj df key) agg = map Inr cols"
    by (auto simp: groupby_agg_def collect_Inr split: sum.splits)
  have 1: "length (snd p) = length (group_keys os obj df key)"
    if "p \<in> set (key_columns os obj df key (map fst agg))" for p
    using that by (auto simp: key_columns_def split: if_splits)
  have 2: "length (snd p) = length (group_keys os obj df key)" if "p \<in> set cols" for p
  proof -
    from that have "Inr p \<in> set (map (agg_column gs os obj df key) agg)"
      by (simp add: cols)
    then obtain cf where "agg_column gs os obj df key cf = Inr p" by auto
    then have "map (\<lambda>k. apply_agg gs (snd cf) (get_col df (fst cf)) (group_values df key (fst cf) k)) (group_keys os obj df key)
               = map Inr (snd p)"
      by (cases cf) (simp add: agg_column_Inr)
    then show ?thesis by (metis length_map)
  qed
  show ?thesis using 1 2 by (auto simp: out)
qed

lemma output_keys:
  assumes "aggregate_duplicates gs os obj df = Inr out" "grouping_key df = Inr key"
    and "\<forall>c \<in> set key. \<not> is_capacity c \<and> c \<noteq> ''Workforce size''"
    and "j < length (group_keys os obj df key)"
  shows "row_key out key j = group_keys os obj df key ! j"
proof -
  define gk where "gk = group_keys os obj df key"
  define vals where "vals = map (\<lambda>m. map (\<lambda>k. k ! m) gk) [0..<length key]"
  have agg: "groupby_agg gs os obj df key (agg_spec df key) = Inr out"
    using assms(1,2) by (simp add: aggregate_duplicates_def)
  then obtain cols where out: "out = key_columns os obj df key (map fst (agg_spec df key)) @ cols"
    by (auto simp: groupby_agg_def split: sum.splits)
  have "set key \<inter> set (map fst (agg_spec df key)) = {}"
    using assms(3) agg_spec_key [of _ key df] by auto
  then have kc: "key_columns os obj df key (map fst (agg_spec df key)) = zip key vals"
    by (simp add: key_columns_disjoint vals_def gk_def)
  have dk: "distinct key" using assms(2) by (rule grouping_key_distinct)
  have col: "get_col out (key ! m) = vals ! m" if "m < length key" for m
  proof -
    have "map_of (zip key vals) (key ! m) = Some (vals ! m)"
      using that dk by (intro map_of_zip_nth) (simp_all add: vals_def)
    then show ?thesis
      by (simp add: get_col_def out kc)
  qed
  have len: "length (gk ! j) = length key"
    using assms(4) length_group_key [where k = "gk ! j" and df = df and key = key and os = os and obj = obj] by (simp add: gk_def)
  show ?thesis
    unfolding gk_def [symmetric]
  proof (rule nth_equalityI)
    show "length (row_key out key j) = length (gk ! j)"
      by (simp add: row_key_def len)
  next
    fix m assume "m < length (row_key out key j)"
    then have m: "m < length key" by (simp add: row_key_def)
    then show "row_key out key j ! m = gk ! j ! m"
      using assms(4) by (simp add: row_key_def col vals_def gk_def)
  qed
qed

subsection \<open>The example of duplicated plants\<close>

lemma duplicates_aggregated: "aggregate_duplicates exact_sum insertion_argsort [] duplicates_frame = Inr duplicates_output"
  by code_simp

lemma duplicates_key: "grouping_key duplicates_frame = Inr [''Plant ID'']"
  by code_simp

lemma duplicates_groups:
  "group_keys insertion_argsort [] duplicates_frame [''Plant ID''] = [[Str ''P1''], [Str ''P2''], [NA]]"
  by code_simp

lemma duplicates_nrows: "nrows duplicates_frame = 5"
  by code_simp

lemma duplicates_row_keys:
  "row_key duplicates_frame [''Plant ID''] 0 = [Str ''P2'']"
  "row_key duplicates_frame [''Plant ID''] 1 = [Str ''P1'']"
  "row_key duplicates_frame [''Plant ID''] 2 = [NA]"
  "row_key duplicates_frame [''Plant ID''] 3 = [Str ''P2'']"
  "row_key duplicates_frame [''Plant ID''] 4 = [NA]"
  by code_simp+

subsection \<open>First-wins columns\<close>

text \<open>
  Claim C4, the claim as stated fails: \<^verbatim>\<open>"first"\<close> skips missing values, so the
  output does not carry the missing owner of the first row of the group.
\<close>

theorem first_row_counterexample:
  "aggregate_duplicates exact_sum insertion_argsort [] [(''Plant ID'', [Str ''P1'', Str ''P1'']), (''Owner'', [NA, Str ''X''])]
     = Inr [(''Plant ID'', [Str ''P1'']), (''Owner'', [Str ''X''])]"
  by code_simp

text \<open>
  Claim C4, amended.  For every group and every column that is not a key column, not
  capacity-like and not the workforce size (the ten descriptive fields named in the code
  are such columns), the output row carries the first value of the group, in input row
  order, that is not missing, and a missing value when the group has none.  Here \<open>k\<close>
  is the key of the \<open>j\<close>-th group, and the rows of the group are the rows \<open>i\<close> with
  \<open>row_key df key i = k\<close>.
\<close>

theorem first_non_missing:
  assumes "aggregate_duplicates gs os obj df = Inr out"
    and "grouping_key df = Inr key"
    and "c \<in> set (columns df)" "c \<notin> set key" "\<not> is_capacity c" "c \<noteq> ''Workforce size''"
    and "j < length (group_keys os obj df key)" "k = group_keys os obj df key ! j"
  shows "(\<forall>i < nrows df. row_key df key i = k \<and> get_col df c ! i \<noteq> NA
            \<and> (\<forall>i' < i. row_key df key i' = k \<longrightarrow> get_col df c ! i' = NA)
            \<longrightarrow> get_col out c ! j = get_col df c ! i)
     \<and> ((\<forall>i < nrows df. row_key df key i = k \<longrightarrow> get_col df c ! i = NA)
            \<longrightarrow> get_col out c ! j = NA)
     \<and> (\<forall>f \<in> set first_fields. \<not> is_capacity f \<and> f \<noteq> ''Workforce size'')"
proof -
  have out: "groupby_agg gs os obj df key (agg_spec df key) = Inr out"
    using assms(1,2) by (simp add: aggregate_duplicates_def)
  have "map_of (agg_spec df key) c = Some First"
    using assms(3-6) by (rule agg_spec_first)
  from agg_output [OF out this assms(7)]
  have val: "get_col out c ! j = agg_first (group_values df key c k)"
    by (simp add: assms(8))
  show ?thesis
    unfolding val using group_first_value [of _ df key k c] group_all_missing [of df key k c]
      first_fields_plain by blast
qed

theorem first_non_missing_witness:
  "aggregate_duplicates exact_sum insertion_argsort [] duplicates_frame = Inr duplicates_output
   \<and> grouping_key duplicates_frame = Inr [''Plant ID'']
   \<and> group_keys insertion_argsort [] duplicates_frame [''Plant ID''] ! 1 = [Str ''P2'']
   \<and> get_col duplicates_frame ''Owner'' = [NA, Str ''A'', Str ''C'', Str ''B'', NA]
   \<and> get_col duplicates_output ''Owner'' ! 1 = get_col duplicates_frame ''Owner'' ! 3"
proof -
  have h3: "''Owner'' \<in> set (columns duplicates_frame)" by code_simp
  have h4: "''Owner'' \<notin> set [''Plant ID'']" by simp
  have h5: "\<not> is_capacity ''Owner''" by code_simp
  have h6: "''Owner'' \<noteq> ''Workforce size''" by simp
  have h7: "1 < length (group_keys insertion_argsort [] duplicates_frame [''Plant ID''])"
    by (simp add: duplicates_groups)
  have h8: "[Str ''P2''] = group_keys insertion_argsort [] duplicates_frame [''Plant ID''] ! 1"
    by (simp add: duplicates_groups)
  have o: "get_col duplicates_frame ''Owner'' = [NA, Str ''A'', Str ''C'', Str ''B'', NA]"
    by code_simp
  have early: "\<forall>i' < 3. row_key duplicates_frame [''Plant ID''] i' = [Str ''P2'']
                  \<longrightarrow> get_col duplicates_frame ''Owner'' ! i' = NA"
  proof (intro allI impI)
    fix i' :: nat
    assume "i' < 3" and k: "row_key duplicates_frame [''Plant ID''] i' = [Str ''P2'']"
    then have "i' = 0 \<or> i' = 1 \<or> i' = 2" by arith
    with k show "get_col duplicates_frame ''Owner'' ! i' = NA"
      using duplicates_row_keys(2,3) by (auto simp only: o nth_Cons_0 list.inject cell.distinct)
  qed
  have row: "3 < nrows duplicates_frame \<and> row_key duplicates_frame [''Plant ID''] 3 = [Str ''P2'']
        \<and> get_col duplicates_frame ''Owner'' ! 3 \<noteq> NA
        \<and> (\<forall>i' < 3. row_key duplicates_frame [''Plant ID''] i' = [Str ''P2'']
                  \<longrightarrow> get_col duplicates_frame ''Owner'' ! i' = NA)"
    using early by (simp add: duplicates_nrows duplicates_row_keys o)
  note t = first_non_missing [OF duplicates_aggregated duplicates_key h3 h4 h5 h6 h7 h8,
      THEN conjunct1, rule_format, of 3]
  have "get_col duplicates_output ''Owner'' ! 1 = get_col duplicates_frame ''Owner'' ! 3"
    using row by (intro t) simp_all
  then show ?thesis
    using duplicates_aggregated duplicates_key h8 o by simp
qed

subsection \<open>Groups and input rows\<close>

text \<open>
  Claim C6, the part that holds.  Duplicate aggregation drops no input row: every input
  row, whatever its key values, missing ones included, has its key in exactly one group,
  so rows with the same key, missing values included, are in the same group; every group
  comes from an input row; the output has one row per group; and when no key column is
  itself aggregated, the key columns of the \<open>j\<close>-th output row hold the key of the
  \<open>j\<close>-th group.
\<close>

theorem groups_cover_rows:
  assumes "aggregate_duplicates gs os obj df = Inr out" "grouping_key df = Inr key"
  shows "(\<forall>i < nrows df. \<exists>!j. j < length (group_keys os obj df key)
                                \<and> group_keys os obj df key ! j = row_key df key i)
     \<and> (\<forall>j < length (group_keys os obj df key). \<exists>i < nrows df. row_key df key i = group_keys os obj df key ! j)
     \<and> (\<forall>p \<in> set out. length (snd p) = length (group_keys os obj df key))
     \<and> ((\<forall>c \<in> set key. \<not> is_capacity c \<and> c \<noteq> ''Workforce size'')
          \<longrightarrow> (\<forall>j < length (group_keys os obj df key). row_key out key j = group_keys os obj df key ! j))"
proof -
  have a: "\<exists>!j. j < length (group_keys os obj df key) \<and> group_keys os obj df key ! j = row_key df key i"
    if "i < nrows df" for i
  proof -
    have "row_key df key i \<in> set (group_keys os obj df key)"
      using that by (simp add: set_group_keys)
    then obtain j where j: "j < length (group_keys os obj df key)" "group_keys os obj df key ! j = row_key df key i"
      by (auto simp: in_set_conv_nth)
    moreover have "j' = j"
      if "j' < length (group_keys os obj df key)" "group_keys os obj df key ! j' = row_key df key i" for j'
      using that j distinct_group_keys [of os obj df key] by (metis nth_eq_iff_index_eq)
    ultimately show ?thesis by blast
  qed
  have b: "\<exists>i < nrows df. row_key df key i = group_keys os obj df key ! j"
    if "j < length (group_keys os obj df key)" for j
  proof -
    have "group_keys os obj df key ! j \<in> row_key df key ` {0..<nrows df}"
      using that set_group_keys [of os obj df key] nth_mem by blast
    then show ?thesis by auto
  qed
  have c: "\<forall>p \<in> set out. length (snd p) = length (group_keys os obj df key)"
    using assms by (intro output_lengths [where df = df and key = key and agg = "agg_spec df key"])
      (simp add: aggregate_duplicates_def)
  have d: "\<forall>j < length (group_keys os obj df key). row_key out key j = group_keys os obj df key ! j"
    if "\<forall>c \<in> set key. \<not> is_capacity c \<and> c \<noteq> ''Workforce size''"
    using output_keys [OF assms that] by simp
  from a have a': "\<forall>i < nrows df. \<exists>!j. j < length (group_keys os obj df key)
                                \<and> group_keys os obj df key ! j = row_key df key i"
    by simp
  from b have b': "\<forall>j < length (group_keys os obj df key). \<exists>i < nrows df. row_key df key i = group_keys os obj df key ! j"
    by simp
  from d have d': "(\<forall>c \<in> set key. \<not> is_capacity c \<and> c \<noteq> ''Workforce size'')
          \<longrightarrow> (\<forall>j < length (group_keys os obj df key). row_key out key j = group_keys os obj df key ! j)"
    by (rule impI)
  show ?thesis
    by (intro conjI a' b' c d')
qed

theorem groups_cover_rows_witness:
  "aggregate_duplicates exact_sum insertion_argsort [] duplicates_frame = Inr duplicates_output
   \<and> grouping_key duplicates_frame = Inr [''Plant ID'']
   \<and> row_key duplicates_frame [''Plant ID''] 2 = [NA]
   \<and> row_key duplicates_frame [''Plant ID''] 4 = [NA]
   \<and> (\<exists>!j. j < 3 \<and> [[Str ''P1''], [Str ''P2''], [NA :: rat cell]] ! j = [NA])
   \<and> list_all (\<lambda>p. length (snd p) = 3) duplicates_output
   \<and> row_key duplicates_output [''Plant ID''] 2 = [NA]"
proof -
  have plain: "\<forall>c \<in> set [''Plant ID'']. \<not> is_capacity c \<and> c \<noteq> ''Workforce size''"
    by code_simp
  note t = groups_cover_rows [OF duplicates_aggregated duplicates_key,
      unfolded duplicates_groups duplicates_nrows]
  have a: "\<exists>!j. j < 3 \<and> [[Str ''P1''], [Str ''P2''], [NA :: rat cell]] ! j = [NA]"
    using t [THEN conjunct1, rule_format, of 4] by (simp add: duplicates_row_keys numeral_3_eq_3)
  have c: "list_all (\<lambda>p. length (snd p) = 3) duplicates_output"
    using t [THEN conjunct2, THEN conjunct2, THEN conjunct1] by (simp add: list_all_iff)
  have d: "row_key duplicates_output [''Plant ID''] 2 = [NA]"
    using t [THEN conjunct2, THEN conjunct2, THEN conjunct2, rule_format, of 2] plain by simp
  show ?thesis
    using a c d duplicates_aggregated duplicates_key duplicates_row_keys(3,5) by simp
qed

text \<open>
  Claim C6, on a failing input.  Line 91 keeps the key columns out of \<^verbatim>\<open>agg\<close>, but
  lines 92--95 put every capacity-like column back into it.  A file with the single
  column \<^verbatim>\<open>Capacity\<close> is grouped by that column, the first-column fallback, and the
  column is summed within each group: the two rows with capacity 5 give an output row
  with capacity 10, so the key 5 is in no output row.
\<close>

theorem key_column_summed:
  "grouping_key (standardize_columns decimal_float decimal_float exact_sum
                   [(''Capacity'', [Num 5, Num 5, Num 7])]) = Inr [''Capacity'']
   \<and> group_keys insertion_argsort []
        (standardize_columns decimal_float decimal_float exact_sum
           [(''Capacity'', [Num 5, Num 5, Num 7])]) [''Capacity''] = [[Num 5], [Num 7]]
   \<and> load_data decimal_float decimal_float exact_sum exact_sum insertion_argsort
        (Some (Inr [(''Capacity'', [Num 5, Num 5, Num 7])]))
     = Inr [(''Total capacity (ttpa)'', [Num 10, Num 7]), (''Capacity'', [Num 10, Num 7])]"
  by code_simp

subsection \<open>Order of the output rows\<close>









lemma returns_pd_na_missing: "returns_pd_na pf v \<Longrightarrow> extract_lat_lon pf v = (NA, NA)"
  by (cases v) (auto simp: Let_def split: if_splits option.splits)




subsection \<open>The grouping key\<close>

text \<open>
  Claim C5.  The grouping key of duplicate aggregation is \<^verbatim>\<open>Plant ID\<close> when the frame
  has that column; otherwise those of name, owner, latitude, longitude and country that
  are columns of the frame, in that order, when there is one; otherwise the first column
  of the frame.  (A frame without columns has no first column: \<^verbatim>\<open>IndexError\<close>.)
  The aggregation groups by this key.
\<close>

theorem grouping_key_priority:
  "(''Plant ID'' \<in> set (columns df) \<longrightarrow> grouping_key df = Inr [''Plant ID''])
   \<and> (''Plant ID'' \<notin> set (columns df)
        \<and> (\<exists>c \<in> set fallback_fields. c \<in> set (columns df))
      \<longrightarrow> (\<exists>key. grouping_key df = Inr key
                 \<and> key = filter (\<lambda>c. c \<in> set (columns df)) fallback_fields
                 \<and> set key = set fallback_fields \<inter> set (columns df)))
   \<and> (''Plant ID'' \<notin> set (columns df)
        \<and> (\<forall>c \<in> set fallback_fields. c \<notin> set (columns df))
        \<and> columns df = c # rest
      \<longrightarrow> grouping_key df = Inr [c])
   \<and> (columns df = [] \<longrightarrow> grouping_key df = Inl IndexError)
   \<and> (grouping_key df = Inr key
      \<longrightarrow> aggregate_duplicates gs os obj df = groupby_agg gs os obj df key (agg_spec df key))"
proof -
  let ?ks = "filter (\<lambda>c. c \<in> set (columns df)) fallback_fields"
  have ks: "?ks \<noteq> [] \<longleftrightarrow> (\<exists>c \<in> set fallback_fields. c \<in> set (columns df))"
    by (simp add: filter_empty_conv)
  have gk: "grouping_key df =
     (if ''Plant ID'' \<in> set (columns df) then Inr [''Plant ID'']
      else if ?ks \<noteq> [] then Inr ?ks
      else (case columns df of [] \<Rightarrow> Inl IndexError | c # rest \<Rightarrow> Inr [c]))"
    by (simp add: grouping_key_def fallback_fields_def Let_def)
  have 1: "''Plant ID'' \<in> set (columns df) \<longrightarrow> grouping_key df = Inr [''Plant ID'']"
    by (simp add: gk)
  have 2: "''Plant ID'' \<notin> set (columns df)
        \<and> (\<exists>c \<in> set fallback_fields. c \<in> set (columns df))
      \<longrightarrow> (\<exists>key. grouping_key df = Inr key \<and> key = ?ks
                 \<and> set key = set fallback_fields \<inter> set (columns df))"
    using ks by (auto simp: gk)
  have 3: "''Plant ID'' \<notin> set (columns df)
        \<and> (\<forall>c \<in> set fallback_fields. c \<notin> set (columns df))
        \<and> columns df = c # rest
      \<longrightarrow> grouping_key df = Inr [c]"
    using ks by (auto simp: gk)
  have 4: "columns df = [] \<longrightarrow> grouping_key df = Inl IndexError"
    by (simp add: gk)
  have 5: "grouping_key df = Inr key
      \<longrightarrow> aggregate_duplicates gs os obj df = groupby_agg gs os obj df key (agg_spec df key)"
    by (simp add: aggregate_duplicates_def)
  show ?thesis
    by (intro conjI 1 2 3 4 5)
qed

theorem grouping_key_priority_witness:
  "grouping_key [(''Owner'', [Str ''A'' :: rat cell]), (''Plant ID'', [Str ''P1''])] = Inr [''Plant ID'']
   \<and> grouping_key [(''Region'', [NA :: rat cell]), (''longitude'', [Num (2::rat)]), (''Owner'', [Str ''A''])]
       = Inr [''Owner'', ''longitude'']
   \<and> grouping_key [(''Region'', [NA :: rat cell]), (''Status'', [NA])] = Inr [''Region'']"
proof -
  have a: "''Plant ID'' \<in> set (columns [(''Owner'', [Str ''A'' :: rat cell]), (''Plant ID'', [Str ''P1''])])"
    by (simp add: columns_def)
  have b: "''Plant ID'' \<notin> set (columns [(''Region'', [NA :: rat cell]), (''longitude'', [Num (2::rat)]),
                                          (''Owner'', [Str ''A''])])
           \<and> (\<exists>c \<in> set fallback_fields.
                 c \<in> set (columns [(''Region'', [NA :: rat cell]), (''longitude'', [Num (2::rat)]),
                                     (''Owner'', [Str ''A''])]))"
    by (simp add: columns_def fallback_fields_def)
  have b': "filter (\<lambda>c. c \<in> set (columns [(''Region'', [NA :: rat cell]), (''longitude'', [Num (2::rat)]),
                                            (''Owner'', [Str ''A''])])) fallback_fields
            = [''Owner'', ''longitude'']"
    by (simp add: columns_def fallback_fields_def)
  have c: "''Plant ID'' \<notin> set (columns [(''Region'', [NA :: rat cell]), (''Status'', [NA])])
           \<and> (\<forall>c \<in> set fallback_fields. c \<notin> set (columns [(''Region'', [NA :: rat cell]), (''Status'', [NA])]))
           \<and> columns [(''Region'', [NA :: rat cell]), (''Status'', [NA])] = ''Region'' # [''Status'']"
    by (simp add: columns_def fallback_fields_def)
  note t1 = grouping_key_priority [of "[(''Owner'', [Str ''A'' :: rat cell]), (''Plant ID'', [Str ''P1''])]",
      THEN conjunct1, THEN mp, OF a]
  note t2 = grouping_key_priority [of "[(''Region'', [NA :: rat cell]), (''longitude'', [Num (2::rat)]),
                                  (''Owner'', [Str ''A''])]",
      THEN conjunct2, THEN conjunct1, THEN mp, OF b]
  note t3 = grouping_key_priority [of "[(''Region'', [NA :: rat cell]), (''Status'', [NA])]" "''Region''"
                                "[''Status'']",
      THEN conjunct2, THEN conjunct2, THEN conjunct1, THEN mp, OF c]
  from t2 have t2': "grouping_key [(''Region'', [NA :: rat cell]), (''longitude'', [Num (2::rat)]),
                                  (''Owner'', [Str ''A''])] = Inr [''Owner'', ''longitude'']"
    unfolding b' by blast
  show ?thesis
    by (intro conjI t1 t2' t3)
qed

subsection \<open>Errors of the pipeline\<close>







subsection \<open>Sums of capacity columns\<close>

lemma numbers_nonmissing: "numbers (nonmissing vs) = numbers vs"
  by (induction vs) (auto simp: numbers_def nonmissing_def)

lemma numeric_values:
  "strings vs = [] \<Longrightarrow> length (numbers vs) = length (nonmissing vs)"
proof (induction vs)
  case Nil
  then show ?case by (simp add: numbers_def nonmissing_def)
next
  case (Cons v vs)
  then show ?case by (cases v) (auto simp: numbers_def nonmissing_def strings_def)
qed

lemma agg_sum_numeric:
  "strings vs = [] \<Longrightarrow> numbers vs \<noteq> []
   \<Longrightarrow> agg_sum gs col vs = Inr (float_cell (gs (numbers vs)))"
  using numeric_values [of vs] numbers_nonmissing [of vs]
  by (auto simp: agg_sum_def Let_def)

lemma capacity_sum:
  assumes "aggregate_duplicates gs os obj df = Inr out" "grouping_key df = Inr key"
    and "c \<in> set (columns df)" "is_capacity c"
    and "j < length (group_keys os obj df key)"
    and "strings (group_values df key c (group_keys os obj df key ! j)) = []"
    and "numbers (group_values df key c (group_keys os obj df key ! j)) \<noteq> []"
  shows "get_col out c ! j
         = float_cell (gs (numbers (group_values df key c (group_keys os obj df key ! j))))"
proof -
  have out: "groupby_agg gs os obj df key (agg_spec df key) = Inr out"
    using assms(1,2) by (simp add: aggregate_duplicates_def)
  have "map_of (agg_spec df key) c = Some Sum"
    using assms(3,4) by (rule agg_spec_sum)
  from agg_output [OF out this assms(5)] show ?thesis
    by (simp add: agg_sum_numeric assms(6,7))
qed

text \<open>
  Claim C1, on a failing input.  Standardization leaves the total of the two rows of
  plant P1 missing, since their capacity is missing (\<^verbatim>\<open>min_count=1\<close>); the grouped
  \<^verbatim>\<open>"sum"\<close> then turns the group whose rows are all missing into 0, for the total
  and for the raw capacity column, where the claim says missing.
\<close>

theorem all_missing_group_sums_to_zero:
  "standardize_columns decimal_float decimal_float exact_sum sparse_frame
     = [(''Plant ID'', [Str ''P1'', Str ''P1'', Str ''P2'']),
        (''Capacity'', [NA, NA, Num 5]),
        (''Total capacity (ttpa)'', [NA, NA, Num 5])]
   \<and> load_data decimal_float decimal_float exact_sum exact_sum insertion_argsort
       (Some (Inr sparse_frame))
     = Inr [(''Plant ID'', [Str ''P1'', Str ''P2'']),
            (''Capacity'', [Num 0, Num 5]),
            (''Total capacity (ttpa)'', [Num 0, Num 5])]"
  by code_simp

end
